theory Spec2Isabelle
  imports Complex_Main "HOL-Library.AList"
begin

section \<open>JavaScript values used by the table components\<close>

text \<open>
  The outcome of an awaited promise: it resolves with a value or it rejects
  (the \<^verbatim>\<open>catch\<close> branch of a \<^verbatim>\<open>try\<close>, or no branch at all when the code attaches none).
\<close>

datatype 'a outcome = Resolved 'a | Rejected

text \<open>
  \<^verbatim>\<open>String(n)\<close> for a non-negative integer, as \<^verbatim>\<open>URLSearchParams.append\<close> and
  template literals apply it: the decimal digits, most significant first.
\<close>

definition digit :: "nat \<Rightarrow> char" where
  "digit d = ''0123456789'' ! d"

fun string_of_nat :: "nat \<Rightarrow> string" where
  "string_of_nat n =
     (if n < 10 then [digit n] else string_of_nat (n div 10) @ [digit (n mod 10)])"

text \<open>
  \<^verbatim>\<open>Array.prototype.join(',')\<close>, which is what \<^verbatim>\<open>String(array)\<close> yields for an array of
  strings.
\<close>

fun join_comma :: "string list \<Rightarrow> string" where
  "join_comma [] = []"
| "join_comma [x] = x"
| "join_comma (x # y # ys) = x @ '','' @ join_comma (y # ys)"

section \<open>StreamsTable: query state\<close>

text \<open>
  The \<^verbatim>\<open>desc\<close> field of a sorting entry. The component stores exactly three values in
  it: the empty string of the initial state, and the booleans written by
  \<^verbatim>\<open>onSortingChange\<close>.
\<close>

datatype desc_value = EmptyString | Boolean bool

text \<open>JavaScript truthiness (\<^verbatim>\<open>desc ? '-' : ''\<close>): only \<^verbatim>\<open>true\<close> is truthy.\<close>

fun truthy_desc :: "desc_value \<Rightarrow> bool" where
  "truthy_desc EmptyString = False"
| "truthy_desc (Boolean b) = b"

text \<open>
  Loose equality with \<^verbatim>\<open>false\<close> (\<^verbatim>\<open>sortDirection == false\<close>). The argument is
  \<^verbatim>\<open>sorting[0]?.desc\<close>, which is \<^verbatim>\<open>undefined\<close> (here \<open>None\<close>) for an empty array.
  \<^verbatim>\<open>'' == false\<close> holds (both sides convert to the number 0), \<^verbatim>\<open>undefined == false\<close>
  does not.
\<close>

fun loose_eq_false :: "desc_value option \<Rightarrow> bool" where
  "loose_eq_false None = False"
| "loose_eq_false (Some EmptyString) = True"
| "loose_eq_false (Some (Boolean b)) = (\<not> b)"

text \<open>Strict equality with \<^verbatim>\<open>false\<close> (\<^verbatim>\<open>sorting[0].desc === false\<close> in the header icon).\<close>

fun strict_eq_false :: "desc_value \<Rightarrow> bool" where
  "strict_eq_false (Boolean b) = (\<not> b)"
| "strict_eq_false EmptyString = False"

record sort_entry =
  id_col :: string
  desc :: desc_value

record pagination_state =
  pageIndex :: nat
  pageSize :: nat

text \<open>
  A filter value: the text input and the M3U select store strings, the group
  multi-select stores the array of selected options.
\<close>

datatype filter_value = Str string | Arr "string list"

fun truthy_filter :: "filter_value \<Rightarrow> bool" where
  "truthy_filter (Str s) = (s \<noteq> [])"
| "truthy_filter (Arr xs) = True"

fun string_of_filter :: "filter_value \<Rightarrow> string" where
  "string_of_filter (Str s) = s"
| "string_of_filter (Arr xs) = join_comma xs"

text \<open>
  The filter object, with its keys in insertion order (the order of
  \<^verbatim>\<open>Object.entries\<close>). \<^verbatim>\<open>{...prev, [name]: value}\<close> is \<^const>\<open>AList.update\<close>: an existing
  key keeps its place, a new key goes last.
\<close>

type_synonym filter_map = "(string \<times> filter_value) list"

record stream_row =
  row_id :: nat
  row_name :: string

text \<open>\<^verbatim>\<open>URLSearchParams\<close>: the appended key/value pairs, in order.\<close>

type_synonym url_params = "(string \<times> string) list"

text \<open>
  What one \<^verbatim>\<open>fetchData\<close> callback closes over: the values of the render that created
  it. The first five are its \<^verbatim>\<open>useCallback\<close> dependencies; \<^verbatim>\<open>initialDataCount\<close> is
  read by the body without being a dependency.
\<close>

record fetch_closure =
  c_pagination :: pagination_state
  c_sorting :: "sort_entry list"
  c_debouncedFilters :: filter_map
  c_groupsLoaded :: bool
  c_channelGroups :: "(nat \<times> string) list"
  c_initialDataCount :: "nat option"

text \<open>The \<^verbatim>\<open>ordering\<close> parameter: present only when a sort entry exists.\<close>

definition ordering_params :: "sort_entry list \<Rightarrow> url_params" where
  "ordering_params srt =
     (case srt of
        [] \<Rightarrow> []
      | e # _ \<Rightarrow>
          (let sortField = id_col e;
               sortDirection = (if truthy_desc (desc e) then ''-'' else '''')
           in [(''ordering'', sortDirection @ sortField)]))"

text \<open>The debounced filters: only entries with a truthy value are appended.\<close>

definition filter_params :: "filter_map \<Rightarrow> url_params" where
  "filter_params fs =
     map (\<lambda>(key, v). (key, string_of_filter v)) (filter (\<lambda>(key, v). truthy_filter v) fs)"

definition build_params :: "fetch_closure \<Rightarrow> url_params" where
  "build_params c =
     [(''page'', string_of_nat (pageIndex (c_pagination c) + 1)),
      (''page_size'', string_of_nat (pageSize (c_pagination c)))]
     @ ordering_params (c_sorting c)
     @ filter_params (c_debouncedFilters c)"

text \<open>
  The sort direction the server is asked for, for one field: read off the sorting state
  the way \<^verbatim>\<open>fetchData\<close> reads it (first entry only, \<^verbatim>\<open>desc\<close> by truthiness).
\<close>

datatype direction = Unsorted | Ascending | Descending

definition direction_of :: "string \<Rightarrow> sort_entry list \<Rightarrow> direction" where
  "direction_of field srt =
     (case srt of
        [] \<Rightarrow> Unsorted
      | e # _ \<Rightarrow>
          if id_col e = field
          then (if truthy_desc (desc e) then Descending else Ascending)
          else Unsorted)"

fun next_direction :: "direction \<Rightarrow> direction" where
  "next_direction Unsorted = Ascending"
| "next_direction Ascending = Descending"
| "next_direction Descending = Unsorted"

section \<open>StreamsTable: component state\<close>

text \<open>The resolved value of \<^verbatim>\<open>Promise.all([queryStreams, getAllStreamIds, getStreamGroups])\<close>.\<close>

record fetch_response =
  results :: "stream_row list"
  count :: nat
  ids :: "nat list"
  groups :: "string list"

text \<open>
  The \<^verbatim>\<open>useState\<close> cells of the component that the query logic reads or writes, the
  \<^verbatim>\<open>channelGroups\<close> value read from the store, and what the model needs to speak about
  effects:
  \<^item> \<open>filters_id\<close> and \<open>fetchData_id\<close> are object identities: every setter call with a
    fresh object or array changes them, which is what React's dependency arrays compare;
  \<^item> \<open>fetchData\<close> is the memoised callback (its closure);
  \<^item> \<open>debounce_timer\<close> is the pending timeout of \<^verbatim>\<open>useDebounce\<close>: its deadline and the
    value it will commit;
  \<^item> \<open>fetchLog\<close> lists the invocations of \<^verbatim>\<open>fetchData\<close>, \<open>requests\<close> the parameter
    sets handed to the Gateway, \<open>console\<close> the \<^verbatim>\<open>console.error\<close> messages.
  \<^verbatim>\<open>pageSize\<close> is 50 initially and afterwards the selected option
  (\<^verbatim>\<open>'25'\<close>, \<^verbatim>\<open>'50'\<close>, \<^verbatim>\<open>'100'\<close>, \<^verbatim>\<open>'250'\<close>); every use converts it to the same number or
  decimal string, so it is kept as a number. \<^verbatim>\<open>pageCount\<close> is \<open>None\<close> when
  \<^verbatim>\<open>Math.ceil(count / pageSize)\<close> is not finite (page size 0).
\<close>

record streams_table =
  allRowIds :: "nat list"
  data :: "stream_row list"
  pageCount :: "nat option"
  paginationString :: string
  isLoading :: bool
  sorting :: "sort_entry list"
  pagination :: pagination_state
  filters :: filter_map
  debouncedFilters :: filter_map
  groupsLoaded :: bool
  groupOptions :: "string list"
  initialDataCount :: "nat option"
  channelGroups :: "(nat \<times> string) list"
  filters_id :: nat
  fetchData_id :: nat
  fetchData :: fetch_closure
  debounce_timer :: "(nat \<times> filter_map) option"
  fetchLog :: "fetch_closure list"
  requests :: "url_params list"
  console :: "string list"

definition capture :: "streams_table \<Rightarrow> fetch_closure" where
  "capture s =
     \<lparr>c_pagination = pagination s, c_sorting = sorting s,
      c_debouncedFilters = debouncedFilters s, c_groupsLoaded = groupsLoaded s,
      c_channelGroups = channelGroups s, c_initialDataCount = initialDataCount s\<rparr>"

text \<open>The state of the first render (\<^verbatim>\<open>useState\<close> initial values), for a given store value.\<close>

definition initial_sorting :: "sort_entry list" where
  "initial_sorting = [\<lparr>id_col = ''name'', desc = EmptyString\<rparr>]"

definition initial_filters :: filter_map where
  "initial_filters =
     [(''name'', Str ''''), (''channel_group'', Str ''''), (''m3u_account'', Str '''')]"

definition initial_closure :: "(nat \<times> string) list \<Rightarrow> fetch_closure" where
  "initial_closure cg =
     \<lparr>c_pagination = \<lparr>pageIndex = 0, pageSize = 50\<rparr>, c_sorting = initial_sorting,
      c_debouncedFilters = initial_filters, c_groupsLoaded = False,
      c_channelGroups = cg, c_initialDataCount = None\<rparr>"

definition initial_state :: "(nat \<times> string) list \<Rightarrow> streams_table" where
  "initial_state cg =
     \<lparr>allRowIds = [], data = [], pageCount = Some 0, paginationString = [],
      isLoading = True, sorting = initial_sorting,
      pagination = \<lparr>pageIndex = 0, pageSize = 50\<rparr>,
      filters = initial_filters, debouncedFilters = initial_filters,
      groupsLoaded = False, groupOptions = [], initialDataCount = None,
      channelGroups = cg, filters_id = 0, fetchData_id = 0,
      fetchData = initial_closure cg, debounce_timer = None,
      fetchLog = [], requests = [], console = []\<rparr>"

subsection \<open>State setters\<close>

text \<open>
  \<^verbatim>\<open>setPagination\<close>, \<^verbatim>\<open>setSorting\<close> and \<^verbatim>\<open>setFilters\<close> are always called with a newly
  built object or array, so the identity seen by the dependency arrays changes even
  when the content does not. \<^verbatim>\<open>setGroupsLoaded\<close> stores a boolean: React skips the
  update when the value is the same.
\<close>

definition setPagination :: "pagination_state \<Rightarrow> streams_table \<Rightarrow> streams_table" where
  "setPagination p s = s\<lparr>pagination := p, fetchData_id := Suc (fetchData_id s)\<rparr>"

definition setSorting :: "sort_entry list \<Rightarrow> streams_table \<Rightarrow> streams_table" where
  "setSorting srt s = s\<lparr>sorting := srt, fetchData_id := Suc (fetchData_id s)\<rparr>"

definition setFilters :: "filter_map \<Rightarrow> streams_table \<Rightarrow> streams_table" where
  "setFilters fs s = s\<lparr>filters := fs, filters_id := Suc (filters_id s)\<rparr>"

definition setGroupsLoaded :: "bool \<Rightarrow> streams_table \<Rightarrow> streams_table" where
  "setGroupsLoaded b s =
     (if groupsLoaded s = b then s
      else s\<lparr>groupsLoaded := b, fetchData_id := Suc (fetchData_id s)\<rparr>)"

subsection \<open>Event handlers\<close>

definition handleFilterChange :: "string \<Rightarrow> string \<Rightarrow> streams_table \<Rightarrow> streams_table" where
  "handleFilterChange name v s = setFilters (AList.update name (Str v) (filters s)) s"

text \<open>
  \<^verbatim>\<open>channel_group: value ? value : ''\<close>: the multi-select passes an array, and every
  array is truthy, the empty one too.
\<close>

definition handleGroupChange :: "string list \<Rightarrow> streams_table \<Rightarrow> streams_table" where
  "handleGroupChange v s = setFilters (AList.update ''channel_group'' (Arr v) (filters s)) s"

text \<open>\<^verbatim>\<open>m3u_account: value ? value : ''\<close>: the select passes a string or \<^verbatim>\<open>null\<close>.\<close>

definition handleM3UChange :: "string option \<Rightarrow> streams_table \<Rightarrow> streams_table" where
  "handleM3UChange v s =
     setFilters
       (AList.update ''m3u_account'' (Str (case v of None \<Rightarrow> [] | Some x \<Rightarrow> x)) (filters s)) s"

definition onPageSizeChange :: "nat \<Rightarrow> streams_table \<Rightarrow> streams_table" where
  "onPageSizeChange v s = setPagination ((pagination s)\<lparr>pageSize := v\<rparr>) s"

text \<open>\<^verbatim>\<open>pageIndex > pageCount\<close>: false against a page count that is not finite.\<close>

definition exceeds :: "nat \<Rightarrow> nat option \<Rightarrow> bool" where
  "exceeds n pc = (case pc of None \<Rightarrow> False | Some m \<Rightarrow> m < n)"

definition onPageIndexChange :: "nat \<Rightarrow> streams_table \<Rightarrow> streams_table" where
  "onPageIndexChange n s =
     (if n = 0 \<or> exceeds n (pageCount s) then s
      else setPagination ((pagination s)\<lparr>pageIndex := n - 1\<rparr>) s)"

definition onSortingChange :: "string \<Rightarrow> streams_table \<Rightarrow> streams_table" where
  "onSortingChange column s =
     (let sortField = (case sorting s of [] \<Rightarrow> None | e # _ \<Rightarrow> Some (id_col e));
          sortDirection = (case sorting s of [] \<Rightarrow> None | e # _ \<Rightarrow> Some (desc e))
      in if sortField = Some column
         then (if loose_eq_false sortDirection
               then setSorting [\<lparr>id_col = column, desc = Boolean True\<rparr>] s
               else setSorting [] s)
         else setSorting [\<lparr>id_col = column, desc = Boolean False\<rparr>] s)"

text \<open>The icon \<^verbatim>\<open>renderHeaderCell\<close> picks for a header.\<close>

datatype sorting_icon = ArrowUpDown | ArrowUpNarrowWide | ArrowDownWideNarrow

definition sortingIcon :: "string \<Rightarrow> streams_table \<Rightarrow> sorting_icon" where
  "sortingIcon header_id s =
     (case sorting s of
        [] \<Rightarrow> ArrowUpDown
      | e # _ \<Rightarrow>
          if id_col e = header_id
          then (if strict_eq_false (desc e) then ArrowUpNarrowWide else ArrowDownWideNarrow)
          else ArrowUpDown)"

subsection \<open>fetchData\<close>

text \<open>
  \<^verbatim>\<open>Math.ceil(count / pageSize)\<close> on non-negative integers (exact below \<open>2^53\<close>);
  \<open>None\<close> stands for the non-finite results of a division by zero.
\<close>

definition math_ceil_div :: "nat \<Rightarrow> nat \<Rightarrow> nat option" where
  "math_ceil_div c p = (if p = 0 then None else Some ((c + p - 1) div p))"

text \<open>
  The asynchronous body is cut at its two \<^verbatim>\<open>await\<close>s. \<open>fetchData_call\<close> is the part that
  runs when the callback is invoked: it raises the loading flag and either awaits
  \<^verbatim>\<open>fetchChannelGroups\<close> or goes straight to the request.
\<close>

definition fetchData_request :: "fetch_closure \<Rightarrow> streams_table \<Rightarrow> streams_table" where
  "fetchData_request c s = s\<lparr>requests := requests s @ [build_params c]\<rparr>"

definition needs_groups :: "fetch_closure \<Rightarrow> bool" where
  "needs_groups c = (\<not> c_groupsLoaded c \<and> length (map fst (c_channelGroups c)) = 0)"

definition fetchData_call :: "fetch_closure \<Rightarrow> streams_table \<Rightarrow> streams_table" where
  "fetchData_call c s =
     (let s1 = s\<lparr>isLoading := True, fetchLog := fetchLog s @ [c]\<rparr>
      in if needs_groups c then s1 else fetchData_request c s1)"

text \<open>Continuation after \<^verbatim>\<open>await fetchChannelGroups()\<close> settles.\<close>

definition fetchData_groups_settled ::
  "fetch_closure \<Rightarrow> unit outcome \<Rightarrow> streams_table \<Rightarrow> streams_table" where
  "fetchData_groups_settled c r s =
     fetchData_request c
       (case r of
          Resolved _ \<Rightarrow> setGroupsLoaded True s
        | Rejected \<Rightarrow> s\<lparr>console := console s @ [''Error fetching channel groups:'']\<rparr>)"

text \<open>Continuation after \<^verbatim>\<open>await Promise.all([...])\<close> settles.\<close>

definition fetchData_settled ::
  "fetch_closure \<Rightarrow> fetch_response outcome \<Rightarrow> streams_table \<Rightarrow> streams_table" where
  "fetchData_settled c r s =
     (case r of
        Resolved resp \<Rightarrow>
          (let pg = c_pagination c;
               startItem = pageIndex pg * pageSize pg + 1;
               endItem = min ((pageIndex pg + 1) * pageSize pg) (count resp)
           in s\<lparr>allRowIds := ids resp,
                data := results resp,
                pageCount := math_ceil_div (count resp) (pageSize pg),
                groupOptions := groups resp,
                initialDataCount :=
                  (if c_initialDataCount c = None then Some (count resp)
                   else initialDataCount s),
                paginationString :=
                  string_of_nat startItem @ '' to '' @ string_of_nat endItem
                  @ '' of '' @ string_of_nat (count resp)\<rparr>)
      | Rejected \<Rightarrow> s\<lparr>console := console s @ [''Error fetching data:'']\<rparr>)
     \<lparr>isLoading := False\<rparr>"

text \<open>
  \<^verbatim>\<open>useEffect(() => { fetchData(); }, [fetchData])\<close> together with the \<^verbatim>\<open>useCallback\<close>
  that memoises \<^verbatim>\<open>fetchData\<close>: when a dependency changed between two renders, a new
  callback closes over the new state and the effect invokes it once. State updates made
  by one handler are applied in one render.
\<close>

definition useEffect_fetchData :: "streams_table \<Rightarrow> streams_table \<Rightarrow> streams_table" where
  "useEffect_fetchData before after =
     (if fetchData_id after = fetchData_id before then after
      else (let c = capture after in fetchData_call c (after\<lparr>fetchData := c\<rparr>)))"

text \<open>\<^verbatim>\<open>closeStreamForm\<close> invokes the current callback directly.\<close>

definition closeStreamForm :: "streams_table \<Rightarrow> streams_table" where
  "closeStreamForm s = fetchData_call (fetchData s) s"

text \<open>A change of the \<^verbatim>\<open>channelGroups\<close> object in the store, as the component sees it.\<close>

definition channelGroups_changed :: "(nat \<times> string) list \<Rightarrow> streams_table \<Rightarrow> streams_table" where
  "channelGroups_changed cg s = s\<lparr>channelGroups := cg, fetchData_id := Suc (fetchData_id s)\<rparr>"

subsection \<open>The debounced filters\<close>

text \<open>
  The callback the component passes to \<^verbatim>\<open>useDebounce\<close>:
  \<^verbatim>\<open>setPagination((prev) => ({...prev, pageIndex: 0}))\<close>.
\<close>

definition debounce_callback :: "streams_table \<Rightarrow> streams_table" where
  "debounce_callback s = setPagination ((pagination s)\<lparr>pageIndex := 0\<rparr>) s"

text \<open>
  Modelled from the spec: the hook \<^verbatim>\<open>useDebounce(value, delay, callback)\<close> that
  \<^verbatim>\<open>StreamsTable\<close> imports from \<^verbatim>\<open>'../../utils'\<close> is not among the sources. The spec
  describes it as a cancellable timer: each new edit cancels any pending timer and
  schedules a new one (one window shared by all filter keys); when the quiet period has
  elapsed the staged value is committed to the effective filter map and the page index
  is reset with it. \<open>useDebounce_schedule\<close> is the cancel-and-schedule step at time \<open>t\<close>,
  \<open>useDebounce_commit\<close> the expiry of the pending timer.
\<close>

definition useDebounce_schedule :: "nat \<Rightarrow> nat \<Rightarrow> streams_table \<Rightarrow> streams_table" where
  "useDebounce_schedule delay t s = s\<lparr>debounce_timer := Some (t + delay, filters s)\<rparr>"

text \<open>
  Modelled from the spec: the expiry of the timer of \<^verbatim>\<open>useDebounce\<close> (not among the
  sources). Committing stores the staged value as the debounced one and runs the callback
  in the same update.
\<close>

definition useDebounce_commit ::
  "(streams_table \<Rightarrow> streams_table) \<Rightarrow> streams_table \<Rightarrow> streams_table" where
  "useDebounce_commit callback s =
     (case debounce_timer s of
        None \<Rightarrow> s
      | Some (deadline, v) \<Rightarrow>
          callback (s\<lparr>debouncedFilters := v, debounce_timer := None,
                      fetchData_id := Suc (fetchData_id s)\<rparr>))"

text \<open>
  Modelled from the spec: the effect of \<^verbatim>\<open>useDebounce\<close> (not among the sources) on a
  change of the watched value: cancel the pending timer, schedule a new one.
\<close>

definition useDebounce_effect ::
  "nat \<Rightarrow> nat \<Rightarrow> streams_table \<Rightarrow> streams_table \<Rightarrow> streams_table" where
  "useDebounce_effect delay t before after =
     (if filters_id after = filters_id before then after
      else useDebounce_schedule delay t after)"

definition timer_due :: "nat \<Rightarrow> streams_table \<Rightarrow> bool" where
  "timer_due t s = (case debounce_timer s of None \<Rightarrow> False | Some (deadline, v) \<Rightarrow> deadline \<le> t)"

text \<open>Time advances to \<open>t\<close>: a timer whose deadline has been reached fires.\<close>

definition elapse :: "nat \<Rightarrow> streams_table \<Rightarrow> streams_table" where
  "elapse t s =
     (if timer_due t s then useEffect_fetchData s (useDebounce_commit debounce_callback s)
      else s)"

subsection \<open>The component as a transition system\<close>

datatype event =
    FilterChange string string
  | GroupChange "string list"
  | M3UChange "string option"
  | PageSizeChange nat
  | PageIndexChange nat
  | SortingChange string
  | CloseStreamForm
  | ChannelGroupsChanged "(nat \<times> string) list"
  | GroupsSettled fetch_closure "unit outcome"
  | DataSettled fetch_closure "fetch_response outcome"

fun handle :: "event \<Rightarrow> streams_table \<Rightarrow> streams_table" where
  "handle (FilterChange name v) s = handleFilterChange name v s"
| "handle (GroupChange v) s = handleGroupChange v s"
| "handle (M3UChange v) s = handleM3UChange v s"
| "handle (PageSizeChange v) s = onPageSizeChange v s"
| "handle (PageIndexChange n) s = onPageIndexChange n s"
| "handle (SortingChange column) s = onSortingChange column s"
| "handle CloseStreamForm s = closeStreamForm s"
| "handle (ChannelGroupsChanged cg) s = channelGroups_changed cg s"
| "handle (GroupsSettled c r) s = fetchData_groups_settled c r s"
| "handle (DataSettled c r) s = fetchData_settled c r s"

text \<open>
  One event at time \<open>t\<close>: timers that are due fire first, then the handler runs, then
  the effects of the render that follows.
\<close>

definition step :: "nat \<times> event \<Rightarrow> streams_table \<Rightarrow> streams_table" where
  "step te s =
     (let s0 = elapse (fst te) s;
          s1 = handle (snd te) s0
      in useEffect_fetchData s0 (useDebounce_effect 500 (fst te) s0 s1))"





text \<open>
  The key and the value a filter edit stages, the filter object after a list of edits,
  and the time of the last event of a list (\<open>t\<close> when it is empty).
\<close>

fun edit_of :: "event \<Rightarrow> (string \<times> filter_value) option" where
  "edit_of (FilterChange name v) = Some (name, Str v)"
| "edit_of (GroupChange v) = Some (''channel_group'', Arr v)"
| "edit_of (M3UChange v) = Some (''m3u_account'', Str (case v of None \<Rightarrow> [] | Some x \<Rightarrow> x))"
| "edit_of _ = None"



text \<open>
  The events after which the effect on \<^verbatim>\<open>[fetchData]\<close> invokes the callback, or that invoke
  it themselves, in a state where no timer is due: a change of the page size, a valid
  change of the page, a sort toggle, closing the stream form, a change of the channel
  groups in the store, and the first successful load of the channel groups.
\<close>

fun refetches :: "event \<Rightarrow> streams_table \<Rightarrow> bool" where
  "refetches (PageSizeChange v) s = True"
| "refetches (PageIndexChange n) s = (n \<noteq> 0 \<and> \<not> exceeds n (pageCount s))"
| "refetches (SortingChange column) s = True"
| "refetches CloseStreamForm s = True"
| "refetches (ChannelGroupsChanged cg) s = True"
| "refetches (GroupsSettled c r) s = (case r of Resolved u \<Rightarrow> \<not> groupsLoaded s | Rejected \<Rightarrow> False)"
| "refetches (FilterChange name v) s = False"
| "refetches (GroupChange v) s = False"
| "refetches (M3UChange v) s = False"
| "refetches (DataSettled c r) s = False"

section \<open>RegexFormAndView: the live regex preview\<close>

datatype js_error = SyntaxError | TypeError

text \<open>The JSON message sent over the websocket for a server-side preview.\<close>

record preview_message =
  msg_type :: string
  url :: string
  search :: string
  replace :: string

text \<open>
  The state cells of the form. \<^verbatim>\<open>debouncedPatterns\<close> is \<^verbatim>\<open>{}\<close> at first (\<open>None\<close>) and
  \<^verbatim>\<open>{search, replace}\<close> after a commit; \<open>debouncedPatterns_id\<close> is its object identity.
  \<open>handler\<close> is the pending timeout of the debounce effect: its deadline and the two
  patterns its closure holds. \<open>sent\<close> lists the messages passed to \<^verbatim>\<open>sendMessage\<close>.
\<close>

record regex_form =
  streamUrl :: string
  searchPattern :: string
  replacePattern :: string
  debouncedPatterns :: "(string \<times> string) option"
  debouncedPatterns_id :: nat
  sampleInput :: string
  formik_search_pattern :: string
  formik_replace_pattern :: string
  websocketReady :: bool
  handler :: "(nat \<times> string \<times> string) option"
  sent :: "preview_message list"



















subsection \<open>Local regex preview\<close>

text \<open>
  The JavaScript regular expression engine is a parameter: \<open>RegExp pattern flags\<close>
  compiles or throws (\<open>Inl\<close>), \<open>replace_fn\<close> is \<^verbatim>\<open>String.prototype.replace\<close> with a
  replacer function and \<open>replace_str\<close> with a replacement string. Whatever is thrown
  inside the \<^verbatim>\<open>try\<close> block is caught.
\<close>

definition mark :: "string \<Rightarrow> string" where
  "mark m =
     ''<mark style='' @ [CHR 0x22] @ ''background-color: #ffee58;'' @ [CHR 0x22] @ ''>''
     @ m @ ''</mark>''"

definition getHighlightedSearchText ::
  "(string \<Rightarrow> string \<Rightarrow> js_error + 're) \<Rightarrow>
   ('re \<Rightarrow> string \<Rightarrow> (string \<Rightarrow> string) \<Rightarrow> js_error + string) \<Rightarrow> regex_form \<Rightarrow> string" where
  "getHighlightedSearchText RegExp replace_fn s =
     (if searchPattern s = [] \<or> sampleInput s = [] then sampleInput s
      else (case RegExp (searchPattern s) ''g'' of
              Inl e \<Rightarrow> sampleInput s
            | Inr regex \<Rightarrow>
                (case replace_fn regex (sampleInput s) mark of
                   Inl e \<Rightarrow> sampleInput s
                 | Inr r \<Rightarrow> r)))"

definition getLocalReplaceResult ::
  "(string \<Rightarrow> string \<Rightarrow> js_error + 're) \<Rightarrow>
   ('re \<Rightarrow> string \<Rightarrow> string \<Rightarrow> js_error + string) \<Rightarrow> regex_form \<Rightarrow> string" where
  "getLocalReplaceResult RegExp replace_str s =
     (if searchPattern s = [] \<or> sampleInput s = [] then sampleInput s
      else (case RegExp (searchPattern s) ''g'' of
              Inl e \<Rightarrow> sampleInput s
            | Inr regex \<Rightarrow>
                (case replace_str regex (sampleInput s) (replacePattern s) of
                   Inl e \<Rightarrow> sampleInput s
                 | Inr r \<Rightarrow> r)))"

section \<open>ChannelStreams: drag reordering\<close>

subsection \<open>Array primitives\<close>

text \<open>\<^verbatim>\<open>Array.prototype.indexOf\<close>: the first index holding the value, or \<open>-1\<close>.\<close>

fun indexOf_from :: "int \<Rightarrow> 'a list \<Rightarrow> 'a \<Rightarrow> int" where
  "indexOf_from i [] a = - 1"
| "indexOf_from i (x # xs) a = (if x = a then i else indexOf_from (i + 1) xs a)"

definition indexOf :: "'a list \<Rightarrow> 'a \<Rightarrow> int" where
  "indexOf xs a = indexOf_from 0 xs a"

text \<open>
  The start position \<^verbatim>\<open>Array.prototype.splice\<close> works at: a negative start counts from
  the end, and the result is clamped to the array.
\<close>

definition splice_start :: "nat \<Rightarrow> int \<Rightarrow> nat" where
  "splice_start len start =
     (if start < 0 then nat (max (int len + start) 0) else min (nat start) len)"

text \<open>
  \<^verbatim>\<open>arrayMove\<close> of the drag-and-drop library (\<^verbatim>\<open>@dnd-kit/sortable\<close>), which the component
  calls "just a splice util":
  \<^verbatim>\<open>newArray = array.slice();
  newArray.splice(to < 0 ? newArray.length + to : to, 0, newArray.splice(from, 1)[0]);\<close>
  The insert position is computed first, then one element is removed at \<open>from\<close>, then it
  is inserted. When nothing is removed the inserted element is \<^verbatim>\<open>undefined\<close> (\<open>None\<close>).
\<close>

definition arrayMove :: "'a list \<Rightarrow> int \<Rightarrow> int \<Rightarrow> 'a option list" where
  "arrayMove array from to =
     (let target = (if to < 0 then int (length array) + to else to);
          i = splice_start (length array) from;
          removed = (if i < length array then Some (array ! i) else None);
          rest = take i array @ drop (Suc i) array;
          j = splice_start (length rest) target
      in map Some (take j rest) @ [removed] @ map Some (drop j rest))"

text \<open>
  \<^verbatim>\<open>retval.map((row) => row.id)\<close> and the use of \<^verbatim>\<open>retval\<close> as the new row list: reading
  \<^verbatim>\<open>.id\<close> of an \<^verbatim>\<open>undefined\<close> element throws.
\<close>

fun defined_rows :: "'a option list \<Rightarrow> js_error + 'a list" where
  "defined_rows [] = Inr []"
| "defined_rows (None # xs) = Inl TypeError"
| "defined_rows (Some x # xs) =
     (case defined_rows xs of Inl e \<Rightarrow> Inl e | Inr ys \<Rightarrow> Inr (x # ys))"

subsection \<open>Component state and handlers\<close>

datatype api_call = UpdateChannel nat "nat list" | RequeryChannels

text \<open>
  What the component reads from its props and the stores: the channel whose streams it
  lists, the signed-in user's level, and the constant \<^verbatim>\<open>USER_LEVELS.ADMIN\<close> (declared in
  \<^verbatim>\<open>'../../constants'\<close>, outside the sources, hence a parameter).
\<close>

record channel_props =
  channel_id :: nat
  user_level :: nat
  ADMIN :: nat

text \<open>
  \<open>cs_data\<close> is the \<^verbatim>\<open>data\<close> state cell (the displayed order). \<open>cs_active\<close> is the row the
  drag-and-drop context currently drags, \<open>cs_pending\<close> counts the \<^verbatim>\<open>updateChannel\<close>
  promises that have not settled, \<open>cs_calls\<close> lists the Gateway calls issued.
\<close>

record channel_streams =
  cs_data :: "stream_row list"
  cs_active :: "nat option"
  cs_pending :: nat
  cs_calls :: "api_call list"

definition handleDragEnd ::
  "channel_props \<Rightarrow> nat option \<times> nat option \<Rightarrow> channel_streams \<Rightarrow> js_error + channel_streams" where
  "handleDragEnd props event s =
     (if user_level props \<noteq> ADMIN props then Inr s
      else (case event of
              (Some active, Some over) \<Rightarrow>
                if active \<noteq> over
                then (let dataIds = map row_id (cs_data s);
                          oldIndex = indexOf dataIds active;
                          newIndex = indexOf dataIds over
                      in case defined_rows (arrayMove (cs_data s) oldIndex newIndex) of
                           Inl e \<Rightarrow> Inl e
                         | Inr retval \<Rightarrow>
                             Inr (s\<lparr>cs_data := retval,
                                    cs_pending := Suc (cs_pending s),
                                    cs_calls := cs_calls s @
                                      [UpdateChannel (channel_id props) (map row_id retval)]\<rparr>))
                else Inr s
            | _ \<Rightarrow> Inr s))"

text \<open>
  The drag-and-drop context (\<^verbatim>\<open>DndContext\<close> of \<^verbatim>\<open>@dnd-kit/core\<close>). Every row renders a
  handle through \<^verbatim>\<open>useDraggable({ id: rowId })\<close>, with no \<^verbatim>\<open>disabled\<close> option and without
  looking at the user: a sensor activation on the handle of a displayed row starts a drag
  of that row when none is in progress. The only callback the component registers is
  \<^verbatim>\<open>onDragEnd\<close>; the context calls it with the dragged row and the row under it (or
  \<^verbatim>\<open>null\<close>) and ends the drag. A cancelled drag ends without any callback.
\<close>

definition grab :: "nat \<Rightarrow> channel_streams \<Rightarrow> channel_streams" where
  "grab rowId s =
     (if cs_active s = None \<and> rowId \<in> set (map row_id (cs_data s))
      then s\<lparr>cs_active := Some rowId\<rparr> else s)"

definition drop_on :: "channel_props \<Rightarrow> nat option \<Rightarrow> channel_streams \<Rightarrow> js_error + channel_streams" where
  "drop_on props over s =
     (case cs_active s of
        None \<Rightarrow> Inr s
      | Some active \<Rightarrow>
          (case handleDragEnd props (Some active, over) s of
             Inl e \<Rightarrow> Inl e
           | Inr s' \<Rightarrow> Inr (s'\<lparr>cs_active := None\<rparr>)))"

definition cancel :: "channel_streams \<Rightarrow> channel_streams" where
  "cancel s = s\<lparr>cs_active := None\<rparr>"

text \<open>
  \<^verbatim>\<open>API.updateChannel(...).then(() => { API.requeryChannels(); })\<close>: a fulfilled promise
  issues the re-query, a rejected one has no handler attached.
\<close>

definition persist_settled :: "unit outcome \<Rightarrow> channel_streams \<Rightarrow> channel_streams" where
  "persist_settled r s =
     (if cs_pending s = 0 then s
      else (case r of
              Resolved _ \<Rightarrow> s\<lparr>cs_pending := cs_pending s - 1,
                               cs_calls := cs_calls s @ [RequeryChannels]\<rparr>
            | Rejected \<Rightarrow> s\<lparr>cs_pending := cs_pending s - 1\<rparr>))"

text \<open>\<^verbatim>\<open>useEffect(() => { setData(channelStreams); }, [channelStreams])\<close>.\<close>

definition store_changed :: "stream_row list \<Rightarrow> channel_streams \<Rightarrow> channel_streams" where
  "store_changed channelStreams s = s\<lparr>cs_data := channelStreams\<rparr>"

datatype drag_event =
    Grab nat
  | Drop "nat option"
  | Cancel
  | PersistSettled "unit outcome"
  | StoreChanged "stream_row list"

fun drag_step :: "channel_props \<Rightarrow> drag_event \<Rightarrow> channel_streams \<Rightarrow> js_error + channel_streams" where
  "drag_step props (Grab rowId) s = Inr (grab rowId s)"
| "drag_step props (Drop over) s = drop_on props over s"
| "drag_step props Cancel s = Inr (cancel s)"
| "drag_step props (PersistSettled r) s = Inr (persist_settled r s)"
| "drag_step props (StoreChanged rows) s = Inr (store_changed rows s)"

fun drag_run :: "channel_props \<Rightarrow> drag_event list \<Rightarrow> channel_streams \<Rightarrow> js_error + channel_streams" where
  "drag_run props [] s = Inr s"
| "drag_run props (e # es) s =
     (case drag_step props e s of Inl err \<Rightarrow> Inl err | Inr s' \<Rightarrow> drag_run props es s')"

text \<open>
  The states of the coordinator as the spec names them, read off the component: a drag
  in progress is \<open>Dragging\<close>, an unsettled persist call is \<open>Committing\<close>.
\<close>

datatype phase = Idle | Dragging | Committing

definition phase_of :: "channel_streams \<Rightarrow> phase" where
  "phase_of s =
     (if cs_active s \<noteq> None then Dragging
      else if 0 < cs_pending s then Committing
      else Idle)"

text \<open>Remove the element at an index, insert an element at an index.\<close>

definition remove_at :: "nat \<Rightarrow> 'a list \<Rightarrow> 'a list" where
  "remove_at i xs = take i xs @ drop (Suc i) xs"

definition insert_at :: "nat \<Rightarrow> 'a \<Rightarrow> 'a list \<Rightarrow> 'a list" where
  "insert_at j x xs = take j xs @ [x] @ drop j xs"

text \<open>The first position of an element of the list.\<close>

fun position :: "'a \<Rightarrow> 'a list \<Rightarrow> nat" where
  "position a [] = 0"
| "position a (x # xs) = (if x = a then 0 else Suc (position a xs))"

section \<open>Sorting\<close>

lemma onSortingChange_sorting:
  "sorting (onSortingChange column s) =
     (case sorting s of
        [] \<Rightarrow> [\<lparr>id_col = column, desc = Boolean False\<rparr>]
      | e # _ \<Rightarrow>
          if id_col e = column
          then (if truthy_desc (desc e) then [] else [\<lparr>id_col = column, desc = Boolean True\<rparr>])
          else [\<lparr>id_col = column, desc = Boolean False\<rparr>])"
  by (cases "sorting s"; cases "desc (hd (sorting s))")
     (auto simp: onSortingChange_def setSorting_def Let_def)

lemma toggle_direction:
  "direction_of column (sorting (onSortingChange column s)) =
     next_direction (direction_of column (sorting s))"
  by (auto simp: onSortingChange_sorting direction_of_def split: list.splits)

lemma toggle_iter:
  "direction_of column (sorting ((onSortingChange column ^^ n) s)) =
     (next_direction ^^ n) (direction_of column (sorting s))"
  by (induction n) (simp_all add: toggle_direction)

text \<open>
  Claim C3. Toggling the sort of one fixed field \<open>n\<close> times moves its direction \<open>n\<close>
  steps along the cycle unsorted, ascending, descending, unsorted; from unsorted the
  first three toggles give ascending, descending, unsorted. Toggling a field that is not
  the active one replaces the sorting state by the single entry "that field, ascending",
  so every other field is unsorted afterwards; the sorting state never holds more than
  one entry after a toggle.
\<close>

theorem sort_toggle_cycle:
  "direction_of column (sorting ((onSortingChange column ^^ n) s)) =
     (next_direction ^^ n) (direction_of column (sorting s))
   \<and> (direction_of column (sorting s) = Unsorted \<longrightarrow>
        map (\<lambda>k. direction_of column (sorting ((onSortingChange column ^^ k) s))) [1, 2, 3]
          = [Ascending, Descending, Unsorted])
   \<and> ((case sorting s of [] \<Rightarrow> True | e # _ \<Rightarrow> id_col e \<noteq> column) \<longrightarrow>
        sorting (onSortingChange column s) = [\<lparr>id_col = column, desc = Boolean False\<rparr>])
   \<and> (\<forall>other. other \<noteq> column \<longrightarrow>
        direction_of other (sorting (onSortingChange column s)) = Unsorted)
   \<and> length (sorting (onSortingChange column s)) \<le> 1"
proof (intro conjI)
  show "direction_of column (sorting ((onSortingChange column ^^ n) s)) =
     (next_direction ^^ n) (direction_of column (sorting s))"
    by (rule toggle_iter)
  show "direction_of column (sorting s) = Unsorted \<longrightarrow>
        map (\<lambda>k. direction_of column (sorting ((onSortingChange column ^^ k) s))) [1, 2, 3]
          = [Ascending, Descending, Unsorted]"
    by (simp add: toggle_iter numeral_2_eq_2 numeral_3_eq_3)
  show "(case sorting s of [] \<Rightarrow> True | e # _ \<Rightarrow> id_col e \<noteq> column) \<longrightarrow>
        sorting (onSortingChange column s) = [\<lparr>id_col = column, desc = Boolean False\<rparr>]"
    by (auto simp: onSortingChange_sorting split: list.splits)
  show "\<forall>other. other \<noteq> column \<longrightarrow>
        direction_of other (sorting (onSortingChange column s)) = Unsorted"
    by (auto simp: onSortingChange_sorting direction_of_def split: list.splits)
  show "length (sorting (onSortingChange column s)) \<le> 1"
    by (auto simp: onSortingChange_sorting split: list.splits)
qed

theorem sort_toggle_cycle_witness:
  "map (\<lambda>k. direction_of ''name''
          (sorting ((onSortingChange ''name'' ^^ k) (setSorting [] (initial_state [])))))
     [1, 2, 3] = [Ascending, Descending, Unsorted]
   \<and> sorting (onSortingChange ''group'' (initial_state [])) =
       [\<lparr>id_col = ''group'', desc = Boolean False\<rparr>]
   \<and> direction_of ''name'' (sorting (onSortingChange ''group'' (initial_state []))) = Unsorted"
proof -
  have h1: "direction_of ''name'' (sorting (setSorting [] (initial_state []))) = Unsorted"
    by (simp add: setSorting_def direction_of_def)
  have h2: "(case sorting (initial_state []) of [] \<Rightarrow> True | e # _ \<Rightarrow> id_col e \<noteq> ''group'')"
    by (simp add: initial_state_def initial_sorting_def)
  have h3: "''name'' \<noteq> ''group''"
    by simp
  note a = sort_toggle_cycle [of "''name''" 0 "setSorting [] (initial_state [])"]
  note b = sort_toggle_cycle [of "''group''" 0 "initial_state []"]
  have a': "map (\<lambda>k. direction_of ''name''
          (sorting ((onSortingChange ''name'' ^^ k) (setSorting [] (initial_state [])))))
     [1, 2, 3] = [Ascending, Descending, Unsorted]"
    using a [THEN conjunct2, THEN conjunct1] h1 by (rule mp)
  have b1: "sorting (onSortingChange ''group'' (initial_state [])) =
       [\<lparr>id_col = ''group'', desc = Boolean False\<rparr>]"
    using b [THEN conjunct2, THEN conjunct2, THEN conjunct1] h2 by (rule mp)
  have b2: "direction_of ''name'' (sorting (onSortingChange ''group'' (initial_state []))) = Unsorted"
    using b [THEN conjunct2, THEN conjunct2, THEN conjunct2, THEN conjunct1, THEN spec, of "''name''"] h3
    by (rule mp)
  from a' b1 b2 show ?thesis by (intro conjI)
qed

text \<open>
  Claim C10. The initial sorting state is the single entry \<^verbatim>\<open>{id: 'name', desc: ''}\<close>, so
  the table is not unsorted before any interaction: the fetch of the initial state sends
  \<^verbatim>\<open>ordering=name\<close> without a minus sign, and so does every fetch made while the sorting
  state is the initial one, whatever the page and the filters. The first toggle on
  \<^verbatim>\<open>name\<close> leads directly to descending, because \<^verbatim>\<open>'' == false\<close> holds.
\<close>

theorem initial_sort_state:
  "sorting (initial_state cg) = [\<lparr>id_col = ''name'', desc = EmptyString\<rparr>]
   \<and> direction_of ''name'' (sorting (initial_state cg)) = Ascending
   \<and> build_params (capture (initial_state cg)) =
       [(''page'', ''1''), (''page_size'', ''50''), (''ordering'', ''name'')]
   \<and> ordering_params (sorting ((initial_state cg)\<lparr>pagination := p, debouncedFilters := fs\<rparr>)) =
       [(''ordering'', ''name'')]
   \<and> loose_eq_false (Some EmptyString)
   \<and> sorting (onSortingChange ''name'' (initial_state cg)) =
       [\<lparr>id_col = ''name'', desc = Boolean True\<rparr>]
   \<and> direction_of ''name'' (sorting (onSortingChange ''name'' (initial_state cg))) = Descending"
  by (simp add: onSortingChange_sorting initial_state_def initial_sorting_def
      initial_filters_def direction_of_def build_params_def capture_def ordering_params_def
      filter_params_def digit_def)

section \<open>Fetching and the debounced filters\<close>

lemma build_params_page:
  "map_of (build_params c) ''page'' = Some (string_of_nat (pageIndex (c_pagination c) + 1))"
  by (simp add: build_params_def del: string_of_nat.simps)

lemma fetchLog_fetchData_call: "fetchLog (fetchData_call c s) = fetchLog s @ [c]"
  by (simp add: fetchData_call_def fetchData_request_def Let_def)

lemma fetchData_fetchData_call: "fetchData (fetchData_call c s) = fetchData s"
  by (simp add: fetchData_call_def fetchData_request_def Let_def)

lemma elapse_commit:
  assumes "debounce_timer s = Some (deadline, v)" and "deadline \<le> T"
  shows "elapse T s =
     fetchData_call
       ((capture s)\<lparr>c_pagination := (pagination s)\<lparr>pageIndex := 0\<rparr>, c_debouncedFilters := v\<rparr>)
       (s\<lparr>debouncedFilters := v, debounce_timer := None,
          pagination := (pagination s)\<lparr>pageIndex := 0\<rparr>,
          fetchData_id := Suc (Suc (fetchData_id s)),
          fetchData :=
            (capture s)\<lparr>c_pagination := (pagination s)\<lparr>pageIndex := 0\<rparr>,
                        c_debouncedFilters := v\<rparr>\<rparr>)"
  using assms
  by (simp add: elapse_def timer_due_def useDebounce_commit_def debounce_callback_def
      setPagination_def useEffect_fetchData_def capture_def Let_def)

lemma fetchData_call_fields:
  "pagination (fetchData_call c s) = pagination s"
  "debouncedFilters (fetchData_call c s) = debouncedFilters s"
  "debounce_timer (fetchData_call c s) = debounce_timer s"
  "sorting (fetchData_call c s) = sorting s"
  "filters (fetchData_call c s) = filters s"
  "isLoading (fetchData_call c s)"
  "requests (fetchData_call c s) =
     (if needs_groups c then requests s else requests s @ [build_params c])"
  by (simp_all add: fetchData_call_def fetchData_request_def Let_def)

text \<open>
  Claim C1. Whenever the pending debounce timer has reached its deadline, the commit sets
  \<^verbatim>\<open>pageIndex\<close> to 0 together with the debounced filters, whatever the page was before,
  and the one \<^verbatim>\<open>fetchData\<close> invocation this commit triggers closes over page index 0:
  its \<^verbatim>\<open>page\<close> parameter is 1.
\<close>

theorem filter_commit_resets_page:
  assumes "debounce_timer s = Some (deadline, v)" and "deadline \<le> T"
  shows "pageIndex (pagination (elapse T s)) = 0
     \<and> debouncedFilters (elapse T s) = v
     \<and> debounce_timer (elapse T s) = None
     \<and> fetchLog (elapse T s) = fetchLog s @ [fetchData (elapse T s)]
     \<and> c_debouncedFilters (fetchData (elapse T s)) = v
     \<and> pageIndex (c_pagination (fetchData (elapse T s))) = 0
     \<and> map_of (build_params (fetchData (elapse T s))) ''page'' = Some ''1''"
proof -
  note e = elapse_commit [OF assms]
  have f: "fetchData (elapse T s) =
      (capture s)\<lparr>c_pagination := (pagination s)\<lparr>pageIndex := 0\<rparr>, c_debouncedFilters := v\<rparr>"
    by (simp add: e fetchData_fetchData_call)
  have p: "map_of (build_params (fetchData (elapse T s))) ''page'' = Some ''1''"
    by (simp add: build_params_page f digit_def)
  show ?thesis
    by (simp add: p) (simp add: e fetchData_call_fields fetchLog_fetchData_call
        fetchData_fetchData_call)
qed

lemma step_no_timer:
  "\<not> timer_due t s \<Longrightarrow>
   step (t, e) s = useEffect_fetchData s (useDebounce_effect 500 t s (handle e s))"
  by (simp add: step_def elapse_def Let_def)

lemma settled_rejected:
  "fetchData_settled c Rejected s =
     s\<lparr>console := console s @ [''Error fetching data:''], isLoading := False\<rparr>"
  by (simp add: fetchData_settled_def)

lemma step_rejected:
  "\<not> timer_due t s \<Longrightarrow>
   step (t, DataSettled c Rejected) s =
     s\<lparr>console := console s @ [''Error fetching data:''], isLoading := False\<rparr>"
  by (simp add: step_no_timer settled_rejected useDebounce_effect_def useEffect_fetchData_def)

lemma step_sorting:
  "\<not> timer_due t s \<Longrightarrow>
   fetchLog (step (t, SortingChange column) s) =
     fetchLog s @ [(capture s)\<lparr>c_sorting := sorting (onSortingChange column s)\<rparr>]"
  by (simp add: step_no_timer useDebounce_effect_def useEffect_fetchData_def
      onSortingChange_def setSorting_def Let_def fetchLog_fetchData_call capture_def)

lemma step_pageIndex:
  "\<not> timer_due t s \<Longrightarrow> 0 < n \<Longrightarrow> \<not> exceeds n (pageCount s) \<Longrightarrow>
   fetchLog (step (t, PageIndexChange n) s) =
     fetchLog s @ [(capture s)\<lparr>c_pagination := (pagination s)\<lparr>pageIndex := n - 1\<rparr>\<rparr>]"
  by (simp add: step_no_timer useDebounce_effect_def useEffect_fetchData_def
      onPageIndexChange_def setPagination_def Let_def fetchLog_fetchData_call capture_def)

lemma step_pageSize:
  "\<not> timer_due t s \<Longrightarrow>
   fetchLog (step (t, PageSizeChange n) s) =
     fetchLog s @ [(capture s)\<lparr>c_pagination := (pagination s)\<lparr>pageSize := n\<rparr>\<rparr>]"
  by (simp add: step_no_timer useDebounce_effect_def useEffect_fetchData_def
      onPageSizeChange_def setPagination_def Let_def fetchLog_fetchData_call capture_def)

lemma handle_filter_edit:
  "edit_of e = Some kv \<Longrightarrow>
   handle e s = s\<lparr>filters := AList.update (fst kv) (snd kv) (filters s),
                  filters_id := Suc (filters_id s)\<rparr>"
  by (cases e)
     (auto simp: handleFilterChange_def handleGroupChange_def handleM3UChange_def setFilters_def)


lemma step_filter_edit:
  assumes "edit_of e = Some kv" and "\<not> timer_due t s"
  shows "step (t, e) s =
     s\<lparr>filters := AList.update (fst kv) (snd kv) (filters s),
       filters_id := Suc (filters_id s),
       debounce_timer := Some (t + 500, AList.update (fst kv) (snd kv) (filters s))\<rparr>"
  using assms
  by (simp add: step_def elapse_def handle_filter_edit useDebounce_effect_def
      useDebounce_schedule_def useEffect_fetchData_def Let_def)









theorem filter_commit_resets_page_witness:
  "pageIndex (pagination
      (step (1000, FilterChange ''name'' ''fox'')
         ((initial_state [])\<lparr>pagination := \<lparr>pageIndex = 3, pageSize = 50\<rparr>\<rparr>))) = 3
   \<and> pageIndex (pagination
      (elapse 1500 (step (1000, FilterChange ''name'' ''fox'')
         ((initial_state [])\<lparr>pagination := \<lparr>pageIndex = 3, pageSize = 50\<rparr>\<rparr>)))) = 0
   \<and> map_of (build_params (fetchData
      (elapse 1500 (step (1000, FilterChange ''name'' ''fox'')
         ((initial_state [])\<lparr>pagination := \<lparr>pageIndex = 3, pageSize = 50\<rparr>\<rparr>)))))
       ''page'' = Some ''1''"
proof -
  let ?s0 = "(initial_state [])\<lparr>pagination := \<lparr>pageIndex = 3, pageSize = 50\<rparr>\<rparr>"
  let ?s1 = "step (1000, FilterChange ''name'' ''fox'') ?s0"
  have nd: "\<not> timer_due 1000 ?s0"
    by (simp add: timer_due_def initial_state_def)
  have e: "edit_of (FilterChange ''name'' ''fox'') = Some (''name'', Str ''fox'')"
    by simp
  note s1 = step_filter_edit [OF e nd]
  have h: "debounce_timer ?s1 =
      Some (1500, AList.update ''name'' (Str ''fox'') (filters ?s0))"
    by (simp add: s1)
  have le: "(1500::nat) \<le> 1500" by simp
  have p: "pageIndex (pagination ?s1) = 3"
    by (simp add: s1)
  from filter_commit_resets_page [OF h le] p show ?thesis
    by simp
qed

lemma fetch_failure_base:
  assumes "\<not> timer_due t s"
  shows "console (step (t, DataSettled c Rejected) s) = console s @ [''Error fetching data:'']
     \<and> \<not> isLoading (step (t, DataSettled c Rejected) s)
     \<and> data (step (t, DataSettled c Rejected) s) = data s
     \<and> allRowIds (step (t, DataSettled c Rejected) s) = allRowIds s
     \<and> pageCount (step (t, DataSettled c Rejected) s) = pageCount s
     \<and> paginationString (step (t, DataSettled c Rejected) s) = paginationString s
     \<and> fetchLog (step (t, DataSettled c Rejected) s) = fetchLog s
     \<and> requests (step (t, DataSettled c Rejected) s) = requests s
     \<and> fetchData_id (step (t, DataSettled c Rejected) s) = fetchData_id s
     \<and> debounce_timer (step (t, DataSettled c Rejected) s) = debounce_timer s
     \<and> (\<forall>t' column. \<not> timer_due t' s \<longrightarrow>
          length (fetchLog (step (t', SortingChange column) (step (t, DataSettled c Rejected) s)))
            = Suc (length (fetchLog s)))
     \<and> (\<forall>t' n. \<not> timer_due t' s \<longrightarrow>
          length (fetchLog (step (t', PageSizeChange n) (step (t, DataSettled c Rejected) s)))
            = Suc (length (fetchLog s)))
     \<and> (\<forall>t' n. \<not> timer_due t' s \<and> 0 < n \<and> \<not> exceeds n (pageCount s) \<longrightarrow>
          length (fetchLog (step (t', PageIndexChange n) (step (t, DataSettled c Rejected) s)))
            = Suc (length (fetchLog s)))
     \<and> (\<forall>t' deadline v. debounce_timer s = Some (deadline, v) \<and> deadline \<le> t' \<longrightarrow>
          length (fetchLog (elapse t' (step (t, DataSettled c Rejected) s)))
            = Suc (length (fetchLog s)))"
proof -
  let ?s' = "step (t, DataSettled c Rejected) s"
  have s': "?s' = s\<lparr>console := console s @ [''Error fetching data:''], isLoading := False\<rparr>"
    by (rule step_rejected [OF assms])
  have td: "timer_due t' ?s' = timer_due t' s" for t'
    by (simp add: s' timer_due_def)
  have a: "\<forall>t' column. \<not> timer_due t' s \<longrightarrow>
          length (fetchLog (step (t', SortingChange column) ?s')) = Suc (length (fetchLog s))"
    by (simp add: step_sorting td) (simp add: s')
  have b: "\<forall>t' n. \<not> timer_due t' s \<longrightarrow>
          length (fetchLog (step (t', PageSizeChange n) ?s')) = Suc (length (fetchLog s))"
    by (simp add: step_pageSize td) (simp add: s')
  have pc: "pageCount ?s' = pageCount s" by (simp add: s')
  have c: "\<forall>t' n. \<not> timer_due t' s \<and> 0 < n \<and> \<not> exceeds n (pageCount s) \<longrightarrow>
          length (fetchLog (step (t', PageIndexChange n) ?s')) = Suc (length (fetchLog s))"
    by (simp add: step_pageIndex td pc) (simp add: s')
  have d: "\<forall>t' deadline v. debounce_timer s = Some (deadline, v) \<and> deadline \<le> t' \<longrightarrow>
          length (fetchLog (elapse t' ?s')) = Suc (length (fetchLog s))"
  proof (intro allI impI)
    fix t' deadline v
    assume h: "debounce_timer s = Some (deadline, v) \<and> deadline \<le> t'"
    then have "debounce_timer ?s' = Some (deadline, v)" by (simp add: s')
    from elapse_commit [OF this, of t'] h
    show "length (fetchLog (elapse t' ?s')) = Suc (length (fetchLog s))"
      by (simp add: fetchLog_fetchData_call) (simp add: s')
  qed
  have base: "console ?s' = console s @ [''Error fetching data:'']
     \<and> \<not> isLoading ?s' \<and> data ?s' = data s \<and> allRowIds ?s' = allRowIds s
     \<and> pageCount ?s' = pageCount s \<and> paginationString ?s' = paginationString s
     \<and> fetchLog ?s' = fetchLog s \<and> requests ?s' = requests s
     \<and> fetchData_id ?s' = fetchData_id s \<and> debounce_timer ?s' = debounce_timer s"
    by (simp add: s')
  from base a b c d show ?thesis by (intro conjI) (elim conjE, assumption)+
qed

lemma ceil_div_real:
  assumes "0 < (p::nat)"
  shows "(c + p - 1) div p = nat \<lceil>real c / real p\<rceil>"
proof -
  define q where "q = (c + p - 1) div p"
  have 1: "q * p \<le> c + p - 1"
    by (simp add: q_def)
  have 2: "c + p - 1 < p + q * p"
    unfolding q_def using assms by (rule dividend_less_div_times)
  have a: "real q * real p < real c + real p"
  proof -
    have "q * p < c + p" using 1 assms by linarith
    then have "real (q * p) < real (c + p)" by (rule iffD2 [OF of_nat_less_iff])
    then show ?thesis by simp
  qed
  have b: "real c \<le> real q * real p"
  proof -
    have "c \<le> q * p" using 2 assms by linarith
    then have "real c \<le> real (q * p)" by (rule iffD2 [OF of_nat_le_iff])
    then show ?thesis by simp
  qed
  have rp: "0 < real p" using assms by simp
  have "\<lceil>real c / real p\<rceil> = int q"
  proof (rule ceiling_unique)
    have "(real q - 1) * real p < real c" using a by (simp add: algebra_simps)
    then show "of_int (int q) - 1 < real c / real p"
      using rp by (simp add: pos_less_divide_eq)
    show "real c / real p \<le> of_int (int q)"
      using b rp by (simp add: pos_divide_le_eq)
  qed
  then show ?thesis by (simp add: q_def)
qed

lemma math_ceil_div_ceiling:
  "0 < p \<Longrightarrow> math_ceil_div c p = Some (nat \<lceil>real c / real p\<rceil>)"
  using ceil_div_real [of p c] by (simp add: math_ceil_div_def)

lemma ordering_params_direction:
  "ordering_params srt =
     (case srt of
        [] \<Rightarrow> []
      | e # _ \<Rightarrow>
          [(''ordering'',
            (if direction_of (id_col e) srt = Descending then ''-'' else '''') @ id_col e)])"
  by (simp add: ordering_params_def direction_of_def split: list.splits)

text \<open>
  Claim C7, as amended. The request parameters are \<^verbatim>\<open>page = pageIndex + 1\<close>,
  \<^verbatim>\<open>page_size = pageSize\<close>, then, while a sort entry exists, \<^verbatim>\<open>ordering\<close> = the sort
  field, prefixed with \<^verbatim>\<open>-\<close> exactly when the direction is descending, then the key/value
  pairs of the debounced filters whose value is truthy (a filter whose value is the
  empty string is left out). They are handed to the Gateway when the fetch is invoked,
  or after the channel groups have settled when those are awaited first. On success the
  rows and the id list are replaced, the page count is \<open>\<lceil>count / pageSize\<rceil>\<close>, and the
  range string is "X to Y of Z" with \<open>X = pageIndex * pageSize + 1\<close>,
  \<open>Y = min ((pageIndex + 1) * pageSize) count\<close> and \<open>Z = count\<close>; the total count is kept
  through \<open>Z\<close> and, when the callback saw no initial count, as \<^verbatim>\<open>initialDataCount\<close>.
\<close>

theorem fetch_params_and_success:
  "build_params c =
     [(''page'', string_of_nat (pageIndex (c_pagination c) + 1)),
      (''page_size'', string_of_nat (pageSize (c_pagination c)))]
     @ (case c_sorting c of
          [] \<Rightarrow> []
        | e # _ \<Rightarrow>
            [(''ordering'',
              (if direction_of (id_col e) (c_sorting c) = Descending then ''-'' else '''')
              @ id_col e)])
     @ map (\<lambda>kv. (fst kv, string_of_filter (snd kv)))
         (filter (\<lambda>kv. truthy_filter (snd kv)) (c_debouncedFilters c))
   \<and> (\<not> needs_groups c \<longrightarrow> requests (fetchData_call c s) = requests s @ [build_params c])
   \<and> requests (fetchData_groups_settled c g s) = requests s @ [build_params c]
   \<and> data (fetchData_settled c (Resolved resp) s) = results resp
   \<and> allRowIds (fetchData_settled c (Resolved resp) s) = ids resp
   \<and> (0 < pageSize (c_pagination c) \<longrightarrow>
        pageCount (fetchData_settled c (Resolved resp) s) =
          Some (nat \<lceil>real (count resp) / real (pageSize (c_pagination c))\<rceil>))
   \<and> paginationString (fetchData_settled c (Resolved resp) s) =
        string_of_nat (pageIndex (c_pagination c) * pageSize (c_pagination c) + 1)
        @ '' to ''
        @ string_of_nat
            (min ((pageIndex (c_pagination c) + 1) * pageSize (c_pagination c)) (count resp))
        @ '' of '' @ string_of_nat (count resp)
   \<and> (c_initialDataCount c = None \<longrightarrow>
        initialDataCount (fetchData_settled c (Resolved resp) s) = Some (count resp))
   \<and> \<not> isLoading (fetchData_settled c (Resolved resp) s)"
proof (intro conjI)
  have "filter_params fs =
      map (\<lambda>kv. (fst kv, string_of_filter (snd kv))) (filter (\<lambda>kv. truthy_filter (snd kv)) fs)"
    for fs
    by (simp add: filter_params_def case_prod_unfold)
  then show "build_params c =
     [(''page'', string_of_nat (pageIndex (c_pagination c) + 1)),
      (''page_size'', string_of_nat (pageSize (c_pagination c)))]
     @ (case c_sorting c of
          [] \<Rightarrow> []
        | e # _ \<Rightarrow>
            [(''ordering'',
              (if direction_of (id_col e) (c_sorting c) = Descending then ''-'' else '''')
              @ id_col e)])
     @ map (\<lambda>kv. (fst kv, string_of_filter (snd kv)))
         (filter (\<lambda>kv. truthy_filter (snd kv)) (c_debouncedFilters c))"
    by (simp only: build_params_def ordering_params_direction)
  show "\<not> needs_groups c \<longrightarrow> requests (fetchData_call c s) = requests s @ [build_params c]"
    by (simp add: fetchData_call_def fetchData_request_def Let_def)
  show "requests (fetchData_groups_settled c g s) = requests s @ [build_params c]"
    by (cases g) (simp_all add: fetchData_groups_settled_def fetchData_request_def
        setGroupsLoaded_def)
  show "data (fetchData_settled c (Resolved resp) s) = results resp"
    by (simp add: fetchData_settled_def Let_def)
  show "allRowIds (fetchData_settled c (Resolved resp) s) = ids resp"
    by (simp add: fetchData_settled_def Let_def)
  show "0 < pageSize (c_pagination c) \<longrightarrow>
        pageCount (fetchData_settled c (Resolved resp) s) =
          Some (nat \<lceil>real (count resp) / real (pageSize (c_pagination c))\<rceil>)"
    by (simp add: fetchData_settled_def Let_def math_ceil_div_ceiling)
  show "paginationString (fetchData_settled c (Resolved resp) s) =
        string_of_nat (pageIndex (c_pagination c) * pageSize (c_pagination c) + 1)
        @ '' to ''
        @ string_of_nat
            (min ((pageIndex (c_pagination c) + 1) * pageSize (c_pagination c)) (count resp))
        @ '' of '' @ string_of_nat (count resp)"
    by (simp add: fetchData_settled_def Let_def del: string_of_nat.simps)
  show "c_initialDataCount c = None \<longrightarrow>
        initialDataCount (fetchData_settled c (Resolved resp) s) = Some (count resp)"
    by (simp add: fetchData_settled_def Let_def)
  show "\<not> isLoading (fetchData_settled c (Resolved resp) s)"
    by (simp add: fetchData_settled_def Let_def)
qed

theorem fetch_params_and_success_witness:
  "build_params
     \<lparr>c_pagination = \<lparr>pageIndex = 2, pageSize = 25\<rparr>,
      c_sorting = [\<lparr>id_col = ''name'', desc = Boolean True\<rparr>],
      c_debouncedFilters =
        [(''name'', Str ''fox''), (''channel_group'', Arr [''News'', ''Sports'']),
         (''m3u_account'', Str '''')],
      c_groupsLoaded = True, c_channelGroups = [], c_initialDataCount = None\<rparr>
     = [(''page'', ''3''), (''page_size'', ''25''), (''ordering'', ''-name''),
        (''name'', ''fox''), (''channel_group'', ''News,Sports'')]
   \<and> pageCount (fetchData_settled
     \<lparr>c_pagination = \<lparr>pageIndex = 2, pageSize = 25\<rparr>,
      c_sorting = [\<lparr>id_col = ''name'', desc = Boolean True\<rparr>],
      c_debouncedFilters =
        [(''name'', Str ''fox''), (''channel_group'', Arr [''News'', ''Sports'']),
         (''m3u_account'', Str '''')],
      c_groupsLoaded = True, c_channelGroups = [], c_initialDataCount = None\<rparr>
     (Resolved \<lparr>results = [\<lparr>row_id = 7, row_name = ''fox one''\<rparr>], count = 60,
                 ids = [7], groups = [''News'']\<rparr>)
     (initial_state [])) = Some 3
   \<and> paginationString (fetchData_settled
     \<lparr>c_pagination = \<lparr>pageIndex = 2, pageSize = 25\<rparr>,
      c_sorting = [\<lparr>id_col = ''name'', desc = Boolean True\<rparr>],
      c_debouncedFilters =
        [(''name'', Str ''fox''), (''channel_group'', Arr [''News'', ''Sports'']),
         (''m3u_account'', Str '''')],
      c_groupsLoaded = True, c_channelGroups = [], c_initialDataCount = None\<rparr>
     (Resolved \<lparr>results = [\<lparr>row_id = 7, row_name = ''fox one''\<rparr>], count = 60,
                 ids = [7], groups = [''News'']\<rparr>)
     (initial_state [])) = ''51 to 60 of 60''"
proof -
  let ?c = "\<lparr>c_pagination = \<lparr>pageIndex = 2, pageSize = 25\<rparr>,
      c_sorting = [\<lparr>id_col = ''name'', desc = Boolean True\<rparr>],
      c_debouncedFilters =
        [(''name'', Str ''fox''), (''channel_group'', Arr [''News'', ''Sports'']),
         (''m3u_account'', Str '''')],
      c_groupsLoaded = True, c_channelGroups = [], c_initialDataCount = None\<rparr>"
  let ?resp = "\<lparr>results = [\<lparr>row_id = 7, row_name = ''fox one''\<rparr>], count = 60,
                 ids = [7], groups = [''News'']\<rparr>"
  note th = fetch_params_and_success [of ?c "initial_state []" "Resolved ()" ?resp]
  have ps: "0 < pageSize (c_pagination ?c)" by simp
  from th have a: "build_params ?c =
     [(''page'', string_of_nat (pageIndex (c_pagination ?c) + 1)),
      (''page_size'', string_of_nat (pageSize (c_pagination ?c)))]
     @ (case c_sorting ?c of
          [] \<Rightarrow> []
        | e # _ \<Rightarrow>
            [(''ordering'',
              (if direction_of (id_col e) (c_sorting ?c) = Descending then ''-'' else '''')
              @ id_col e)])
     @ map (\<lambda>kv. (fst kv, string_of_filter (snd kv)))
         (filter (\<lambda>kv. truthy_filter (snd kv)) (c_debouncedFilters ?c))"
    by (elim conjE) assumption
  from th have b: "0 < pageSize (c_pagination ?c) \<longrightarrow>
        pageCount (fetchData_settled ?c (Resolved ?resp) (initial_state [])) =
          Some (nat \<lceil>real (count ?resp) / real (pageSize (c_pagination ?c))\<rceil>)"
    by (elim conjE) assumption
  from th have c: "paginationString (fetchData_settled ?c (Resolved ?resp) (initial_state [])) =
        string_of_nat (pageIndex (c_pagination ?c) * pageSize (c_pagination ?c) + 1)
        @ '' to ''
        @ string_of_nat
            (min ((pageIndex (c_pagination ?c) + 1) * pageSize (c_pagination ?c)) (count ?resp))
        @ '' of '' @ string_of_nat (count ?resp)"
    by (elim conjE) assumption
  have a': "build_params ?c = [(''page'', ''3''), (''page_size'', ''25''), (''ordering'', ''-name''),
        (''name'', ''fox''), (''channel_group'', ''News,Sports'')]"
    by (simp add: a direction_of_def digit_def)
  have b': "pageCount (fetchData_settled ?c (Resolved ?resp) (initial_state [])) = Some 3"
    using b ps by simp
  have c': "paginationString (fetchData_settled ?c (Resolved ?resp) (initial_state []))
      = ''51 to 60 of 60''"
    by (simp add: c digit_def)
  from a' b' c' show ?thesis by (intro conjI)
qed

text \<open>
  Claim C7 as stated fails on the initial state: the committed filter map holds the pair
  \<^verbatim>\<open>name = ''\<close>, and the request parameters hold no \<^verbatim>\<open>name\<close> at all.
\<close>

theorem fetch_params_counterexample:
  "(''name'', Str '''') \<in> set (c_debouncedFilters (initial_closure []))
   \<and> ''name'' \<notin> fst ` set (build_params (initial_closure []))
   \<and> build_params (initial_closure []) =
       [(''page'', ''1''), (''page_size'', ''50''), (''ordering'', ''name'')]"
  by (simp add: initial_closure_def initial_filters_def initial_sorting_def build_params_def
      ordering_params_def filter_params_def digit_def)

section \<open>What invokes a fetch\<close>

lemma step_fetchLog:
  assumes "\<not> timer_due t s"
  shows "fetchLog (step (t, e) s) =
     fetchLog s @ (if refetches e s then [fetchData (step (t, e) s)] else [])"
proof (cases e)
  case (FilterChange name v)
  then show ?thesis using assms
    by (simp add: step_no_timer useDebounce_effect_def useDebounce_schedule_def
        useEffect_fetchData_def handleFilterChange_def setFilters_def)
next
  case (GroupChange v)
  then show ?thesis using assms
    by (simp add: step_no_timer useDebounce_effect_def useDebounce_schedule_def
        useEffect_fetchData_def handleGroupChange_def setFilters_def)
next
  case (M3UChange v)
  then show ?thesis using assms
    by (simp add: step_no_timer useDebounce_effect_def useDebounce_schedule_def
        useEffect_fetchData_def handleM3UChange_def setFilters_def)
next
  case (PageSizeChange v)
  then show ?thesis using assms
    by (simp add: step_no_timer useDebounce_effect_def useEffect_fetchData_def
        onPageSizeChange_def setPagination_def Let_def fetchLog_fetchData_call
        fetchData_fetchData_call)
next
  case (PageIndexChange n)
  then show ?thesis using assms
    by (simp add: step_no_timer useDebounce_effect_def useEffect_fetchData_def
        onPageIndexChange_def setPagination_def Let_def fetchLog_fetchData_call
        fetchData_fetchData_call)
next
  case (SortingChange column)
  then show ?thesis using assms
    by (simp add: step_no_timer useDebounce_effect_def useEffect_fetchData_def
        onSortingChange_def setSorting_def Let_def fetchLog_fetchData_call
        fetchData_fetchData_call)
next
  case CloseStreamForm
  then show ?thesis using assms
    by (simp add: step_no_timer useDebounce_effect_def useEffect_fetchData_def
        closeStreamForm_def fetchLog_fetchData_call fetchData_fetchData_call
        fetchData_call_def fetchData_request_def Let_def)
next
  case (ChannelGroupsChanged cg)
  then show ?thesis using assms
    by (simp add: step_no_timer useDebounce_effect_def useEffect_fetchData_def
        channelGroups_changed_def Let_def fetchLog_fetchData_call fetchData_fetchData_call)
next
  case (GroupsSettled c r)
  then show ?thesis using assms
    by (cases r)
       (simp_all add: step_no_timer useDebounce_effect_def useEffect_fetchData_def
          fetchData_groups_settled_def fetchData_request_def setGroupsLoaded_def Let_def
          fetchLog_fetchData_call fetchData_fetchData_call)
next
  case (DataSettled c r)
  then show ?thesis using assms
    by (cases r)
       (simp_all add: step_no_timer useDebounce_effect_def useEffect_fetchData_def
          fetchData_settled_def Let_def)
qed







lemma refetches_rejected:
  "refetches e (s\<lparr>console := cs, isLoading := b\<rparr>) = refetches e s"
  by (cases e) (simp_all split: outcome.splits)

text \<open>
  Claim C8, as amended. When the Gateway call of a fetch fails, the error is logged, the
  loading flag is cleared, and the rows, the id list, the page count and the pagination
  string stay as they were. The failure invokes no further fetch and changes neither a
  dependency of \<^verbatim>\<open>fetchData\<close> nor the debounce timer, so nothing is scheduled to retry.
  Afterwards a fetch is invoked by exactly these events: a sort toggle, a page size
  change, a valid page change, a filter commit (the timer firing), closing the stream
  form, a change of the channel groups in the store, and the first successful load of
  the channel groups; a filter edit by itself and the settling of another Gateway call
  invoke none.
\<close>

theorem fetch_failure_keeps_snapshot:
  assumes "\<not> timer_due t s"
  shows "(console (step (t, DataSettled c Rejected) s) = console s @ [''Error fetching data:'']
     \<and> \<not> isLoading (step (t, DataSettled c Rejected) s)
     \<and> data (step (t, DataSettled c Rejected) s) = data s
     \<and> allRowIds (step (t, DataSettled c Rejected) s) = allRowIds s
     \<and> pageCount (step (t, DataSettled c Rejected) s) = pageCount s
     \<and> paginationString (step (t, DataSettled c Rejected) s) = paginationString s
     \<and> fetchLog (step (t, DataSettled c Rejected) s) = fetchLog s
     \<and> requests (step (t, DataSettled c Rejected) s) = requests s
     \<and> fetchData_id (step (t, DataSettled c Rejected) s) = fetchData_id s
     \<and> debounce_timer (step (t, DataSettled c Rejected) s) = debounce_timer s
     \<and> (\<forall>t' column. \<not> timer_due t' s \<longrightarrow>
          length (fetchLog (step (t', SortingChange column) (step (t, DataSettled c Rejected) s)))
            = Suc (length (fetchLog s)))
     \<and> (\<forall>t' n. \<not> timer_due t' s \<longrightarrow>
          length (fetchLog (step (t', PageSizeChange n) (step (t, DataSettled c Rejected) s)))
            = Suc (length (fetchLog s)))
     \<and> (\<forall>t' n. \<not> timer_due t' s \<and> 0 < n \<and> \<not> exceeds n (pageCount s) \<longrightarrow>
          length (fetchLog (step (t', PageIndexChange n) (step (t, DataSettled c Rejected) s)))
            = Suc (length (fetchLog s)))
     \<and> (\<forall>t' deadline v. debounce_timer s = Some (deadline, v) \<and> deadline \<le> t' \<longrightarrow>
          length (fetchLog (elapse t' (step (t, DataSettled c Rejected) s)))
            = Suc (length (fetchLog s))))
     \<and> (\<forall>t' e. \<not> timer_due t' s \<longrightarrow>
          fetchLog (step (t', e) (step (t, DataSettled c Rejected) s)) =
            fetchLog s @
              (if refetches e s
               then [fetchData (step (t', e) (step (t, DataSettled c Rejected) s))]
               else []))"
proof (rule conjI)
  show "console (step (t, DataSettled c Rejected) s) = console s @ [''Error fetching data:'']
     \<and> \<not> isLoading (step (t, DataSettled c Rejected) s)
     \<and> data (step (t, DataSettled c Rejected) s) = data s
     \<and> allRowIds (step (t, DataSettled c Rejected) s) = allRowIds s
     \<and> pageCount (step (t, DataSettled c Rejected) s) = pageCount s
     \<and> paginationString (step (t, DataSettled c Rejected) s) = paginationString s
     \<and> fetchLog (step (t, DataSettled c Rejected) s) = fetchLog s
     \<and> requests (step (t, DataSettled c Rejected) s) = requests s
     \<and> fetchData_id (step (t, DataSettled c Rejected) s) = fetchData_id s
     \<and> debounce_timer (step (t, DataSettled c Rejected) s) = debounce_timer s
     \<and> (\<forall>t' column. \<not> timer_due t' s \<longrightarrow>
          length (fetchLog (step (t', SortingChange column) (step (t, DataSettled c Rejected) s)))
            = Suc (length (fetchLog s)))
     \<and> (\<forall>t' n. \<not> timer_due t' s \<longrightarrow>
          length (fetchLog (step (t', PageSizeChange n) (step (t, DataSettled c Rejected) s)))
            = Suc (length (fetchLog s)))
     \<and> (\<forall>t' n. \<not> timer_due t' s \<and> 0 < n \<and> \<not> exceeds n (pageCount s) \<longrightarrow>
          length (fetchLog (step (t', PageIndexChange n) (step (t, DataSettled c Rejected) s)))
            = Suc (length (fetchLog s)))
     \<and> (\<forall>t' deadline v. debounce_timer s = Some (deadline, v) \<and> deadline \<le> t' \<longrightarrow>
          length (fetchLog (elapse t' (step (t, DataSettled c Rejected) s)))
            = Suc (length (fetchLog s)))"
    by (rule fetch_failure_base [OF assms])
  let ?s' = "step (t, DataSettled c Rejected) s"
  have s': "?s' = s\<lparr>console := console s @ [''Error fetching data:''], isLoading := False\<rparr>"
    by (rule step_rejected [OF assms])
  have td: "timer_due t' ?s' = timer_due t' s" for t'
    by (simp add: s' timer_due_def)
  have rf: "refetches e ?s' = refetches e s" for e
    by (simp only: s' refetches_rejected)
  have fl: "fetchLog ?s' = fetchLog s"
    by (simp add: s')
  show "\<forall>t' e. \<not> timer_due t' s \<longrightarrow>
          fetchLog (step (t', e) ?s') =
            fetchLog s @ (if refetches e s then [fetchData (step (t', e) ?s')] else [])"
  proof (intro allI impI)
    fix t' e
    assume "\<not> timer_due t' s"
    then have "\<not> timer_due t' ?s'" by (simp add: td)
    from step_fetchLog [OF this, of e]
    show "fetchLog (step (t', e) ?s') =
            fetchLog s @ (if refetches e s then [fetchData (step (t', e) ?s')] else [])"
      by (simp only: rf fl)
  qed
qed

lemma step_close_fields:
  assumes "\<not> timer_due t s"
  shows "pagination (step (t, CloseStreamForm) s) = pagination s
     \<and> sorting (step (t, CloseStreamForm) s) = sorting s
     \<and> debouncedFilters (step (t, CloseStreamForm) s) = debouncedFilters s"
  using assms
  by (simp add: step_no_timer useDebounce_effect_def useEffect_fetchData_def
      closeStreamForm_def fetchData_call_def fetchData_request_def Let_def)

lemma step_groups_changed_fields:
  assumes "\<not> timer_due t s"
  shows "pagination (step (t, ChannelGroupsChanged cg) s) = pagination s
     \<and> sorting (step (t, ChannelGroupsChanged cg) s) = sorting s
     \<and> debouncedFilters (step (t, ChannelGroupsChanged cg) s) = debouncedFilters s"
  using assms
  by (simp add: step_no_timer useDebounce_effect_def useEffect_fetchData_def
      channelGroups_changed_def fetchData_call_def fetchData_request_def Let_def)

text \<open>
  Claim C8 as stated fails: after a failed fetch, closing the stream form, or a change of
  the channel groups in the store, invokes another fetch although page, sort and filters
  are untouched.
\<close>

theorem fetch_retry_counterexample:
  "fetchLog (step (10, DataSettled (initial_closure []) Rejected) (initial_state [])) = []
   \<and> length (fetchLog (step (20, CloseStreamForm)
        (step (10, DataSettled (initial_closure []) Rejected) (initial_state [])))) = 1
   \<and> pagination (step (20, CloseStreamForm)
        (step (10, DataSettled (initial_closure []) Rejected) (initial_state [])))
      = pagination (initial_state [])
   \<and> sorting (step (20, CloseStreamForm)
        (step (10, DataSettled (initial_closure []) Rejected) (initial_state [])))
      = sorting (initial_state [])
   \<and> debouncedFilters (step (20, CloseStreamForm)
        (step (10, DataSettled (initial_closure []) Rejected) (initial_state [])))
      = debouncedFilters (initial_state [])
   \<and> length (fetchLog (step (20, ChannelGroupsChanged [(1, ''News'')])
        (step (10, DataSettled (initial_closure []) Rejected) (initial_state [])))) = 1
   \<and> pagination (step (20, ChannelGroupsChanged [(1, ''News'')])
        (step (10, DataSettled (initial_closure []) Rejected) (initial_state [])))
      = pagination (initial_state [])
   \<and> sorting (step (20, ChannelGroupsChanged [(1, ''News'')])
        (step (10, DataSettled (initial_closure []) Rejected) (initial_state [])))
      = sorting (initial_state [])
   \<and> debouncedFilters (step (20, ChannelGroupsChanged [(1, ''News'')])
        (step (10, DataSettled (initial_closure []) Rejected) (initial_state [])))
      = debouncedFilters (initial_state [])"
proof -
  let ?s = "initial_state []"
  let ?s' = "step (10, DataSettled (initial_closure []) Rejected) ?s"
  have nd: "\<not> timer_due t ?s" for t
    by (simp add: timer_due_def initial_state_def)
  have s': "?s' = ?s\<lparr>console := console ?s @ [''Error fetching data:''], isLoading := False\<rparr>"
    by (rule step_rejected [OF nd])
  have nd': "\<not> timer_due t ?s'" for t
    using nd [of t] by (simp add: s' timer_due_def)
  have f: "fetchLog ?s' = []" "pagination ?s' = pagination ?s" "sorting ?s' = sorting ?s"
    "debouncedFilters ?s' = debouncedFilters ?s"
    unfolding s' by (simp_all add: initial_state_def)
  have a: "length (fetchLog (step (20, CloseStreamForm) ?s')) = 1"
    by (simp only: step_fetchLog [OF nd'] f refetches.simps if_True) simp
  have b: "length (fetchLog (step (20, ChannelGroupsChanged [(1, ''News'')]) ?s')) = 1"
    by (simp only: step_fetchLog [OF nd'] f refetches.simps if_True) simp
  note c = step_close_fields [OF nd', of 20, unfolded f]
  note d = step_groups_changed_fields [OF nd', of 20 "[(1, ''News'')]", unfolded f]
  from f(1) a b c d show ?thesis
    by (intro conjI) (elim conjE, assumption)+
qed

theorem fetch_failure_keeps_snapshot_witness:
  "data (step (10, DataSettled (initial_closure []) Rejected)
      ((initial_state [])\<lparr>data := [\<lparr>row_id = 1, row_name = ''a''\<rparr>],
         paginationString := ''1 to 1 of 1'', pageCount := Some 1\<rparr>))
     = [\<lparr>row_id = 1, row_name = ''a''\<rparr>]
   \<and> paginationString (step (10, DataSettled (initial_closure []) Rejected)
      ((initial_state [])\<lparr>data := [\<lparr>row_id = 1, row_name = ''a''\<rparr>],
         paginationString := ''1 to 1 of 1'', pageCount := Some 1\<rparr>))
     = ''1 to 1 of 1''
   \<and> \<not> isLoading (step (10, DataSettled (initial_closure []) Rejected)
      ((initial_state [])\<lparr>data := [\<lparr>row_id = 1, row_name = ''a''\<rparr>],
         paginationString := ''1 to 1 of 1'', pageCount := Some 1\<rparr>))
   \<and> fetchLog (step (10, DataSettled (initial_closure []) Rejected)
      ((initial_state [])\<lparr>data := [\<lparr>row_id = 1, row_name = ''a''\<rparr>],
         paginationString := ''1 to 1 of 1'', pageCount := Some 1\<rparr>))
     = []
   \<and> length (fetchLog (step (20, SortingChange ''name'')
      (step (10, DataSettled (initial_closure []) Rejected)
        ((initial_state [])\<lparr>data := [\<lparr>row_id = 1, row_name = ''a''\<rparr>],
           paginationString := ''1 to 1 of 1'', pageCount := Some 1\<rparr>)))) = 1"
proof -
  let ?s0 = "(initial_state [])\<lparr>data := [\<lparr>row_id = 1, row_name = ''a''\<rparr>],
         paginationString := ''1 to 1 of 1'', pageCount := Some 1\<rparr>"
  have nd: "\<not> timer_due t ?s0" for t
    by (simp add: timer_due_def initial_state_def)
  note th = fetch_failure_keeps_snapshot [OF nd, of 10 "initial_closure []"]
  have f0: "fetchLog ?s0 = []" "data ?s0 = [\<lparr>row_id = 1, row_name = ''a''\<rparr>]"
    "paginationString ?s0 = ''1 to 1 of 1''"
    by (simp_all add: initial_state_def)
  from th have a: "data (step (10, DataSettled (initial_closure []) Rejected) ?s0) = data ?s0"
    by (elim conjE) assumption
  from th have b: "paginationString (step (10, DataSettled (initial_closure []) Rejected) ?s0)
        = paginationString ?s0"
    by (elim conjE) assumption
  from th have c: "\<not> isLoading (step (10, DataSettled (initial_closure []) Rejected) ?s0)"
    by (elim conjE) assumption
  from th have d: "fetchLog (step (10, DataSettled (initial_closure []) Rejected) ?s0)
        = fetchLog ?s0"
    by (elim conjE) assumption
  from th have e: "\<forall>t' column. \<not> timer_due t' ?s0 \<longrightarrow>
          length (fetchLog (step (t', SortingChange column)
             (step (10, DataSettled (initial_closure []) Rejected) ?s0)))
            = Suc (length (fetchLog ?s0))"
    by (elim conjE) assumption
  from e nd [of 20]
  have e': "length (fetchLog (step (20, SortingChange ''name'')
             (step (10, DataSettled (initial_closure []) Rejected) ?s0)))
            = Suc (length (fetchLog ?s0))"
    by (elim allE impE) assumption
  from a [unfolded f0] b [unfolded f0] c d [unfolded f0] e' [unfolded f0] show ?thesis
    by simp
qed

section \<open>Debounced bursts and the live regex preview\<close>















text \<open>
  Claim C9. When compiling the search pattern throws, or the pattern or the sample input
  is empty, the highlighted text and the local replace result are the unmodified sample
  input; both functions return a string on every path.
\<close>

theorem regex_failure_falls_back:
  "RegExp (searchPattern s) ''g'' = Inl e \<or> searchPattern s = [] \<or> sampleInput s = [] \<Longrightarrow>
   getHighlightedSearchText RegExp replace_fn s = sampleInput s
   \<and> getLocalReplaceResult RegExp replace_str s = sampleInput s"
  by (auto simp: getHighlightedSearchText_def getLocalReplaceResult_def)

theorem regex_failure_falls_back_witness:
  "getHighlightedSearchText
     (\<lambda>p flags. if p = ''('' then Inl SyntaxError else Inr p)
     (\<lambda>re str fn. Inr (fn str))
     \<lparr>streamUrl = ''http://host/live/1.ts'', searchPattern = ''('', replacePattern = ''x'',
      debouncedPatterns = None, debouncedPatterns_id = 0,
      sampleInput = ''http://host/live/1.ts'', formik_search_pattern = ''('',
      formik_replace_pattern = ''x'', websocketReady = True, handler = None, sent = []\<rparr>
     = ''http://host/live/1.ts''
   \<and> getLocalReplaceResult
     (\<lambda>p flags. if p = ''('' then Inl SyntaxError else Inr p)
     (\<lambda>re str rp. Inr rp)
     \<lparr>streamUrl = ''http://host/live/1.ts'', searchPattern = ''('', replacePattern = ''x'',
      debouncedPatterns = None, debouncedPatterns_id = 0,
      sampleInput = ''http://host/live/1.ts'', formik_search_pattern = ''('',
      formik_replace_pattern = ''x'', websocketReady = True, handler = None, sent = []\<rparr>
     = ''http://host/live/1.ts''"
proof -
  let ?f = "\<lparr>streamUrl = ''http://host/live/1.ts'', searchPattern = ''('', replacePattern = ''x'',
      debouncedPatterns = None, debouncedPatterns_id = 0,
      sampleInput = ''http://host/live/1.ts'', formik_search_pattern = ''('',
      formik_replace_pattern = ''x'', websocketReady = True, handler = None, sent = []\<rparr>"
  let ?R = "\<lambda>p flags::string. if p = ''('' then Inl SyntaxError else (Inr p :: js_error + string)"
  have h: "?R (searchPattern ?f) ''g'' = Inl SyntaxError \<or> searchPattern ?f = []
      \<or> sampleInput ?f = []"
    by simp
  from regex_failure_falls_back [of ?R ?f SyntaxError "\<lambda>re str fn. Inr (fn str)"
      "\<lambda>re str rp. Inr rp", OF h]
  show ?thesis by simp
qed

subsection \<open>One burst, one fetch\<close>





section \<open>Drag reordering of channel streams\<close>

lemma indexOf_from_position:
  "a \<in> set xs \<Longrightarrow> indexOf_from i xs a = i + int (position a xs)"
  by (induction xs arbitrary: i) auto

lemma indexOf_position: "a \<in> set xs \<Longrightarrow> indexOf xs a = int (position a xs)"
  by (simp add: indexOf_def indexOf_from_position)

lemma indexOf_absent: "a \<notin> set xs \<Longrightarrow> indexOf_from i xs a = - 1"
  by (induction xs arbitrary: i) auto

lemma position_less: "a \<in> set xs \<Longrightarrow> position a xs < length xs"
  by (induction xs) auto

lemma nth_position: "a \<in> set xs \<Longrightarrow> xs ! position a xs = a"
  by (induction xs) auto

lemma remove_at_position: "a \<in> set xs \<Longrightarrow> remove_at (position a xs) xs = remove1 a xs"
  by (induction xs) (auto simp: remove_at_def)

lemma defined_rows_Some: "defined_rows (map Some xs) = Inr xs"
  by (induction xs) simp_all

lemma arrayMove_in_range:
  assumes "i < length xs" and "j < length xs"
  shows "arrayMove xs (int i) (int j) = map Some (insert_at j (xs ! i) (remove_at i xs))"
proof -
  have len: "length (take i xs @ drop (Suc i) xs) = length xs - 1"
    using assms(1) by simp
  have j: "min j (length xs - 1) = j"
    using assms(2) by simp
  show ?thesis
    using assms
    by (simp add: arrayMove_def splice_start_def Let_def insert_at_def remove_at_def len j
        del: length_append length_take length_drop)
qed

lemma map_insert_remove:
  "map f (insert_at j x (remove_at i xs)) = insert_at j (f x) (remove_at i (map f xs))"
  by (simp add: insert_at_def remove_at_def take_map drop_map)

lemma handleDragEnd_admin:
  assumes "user_level props = ADMIN props"
    and "active \<in> set (map row_id (cs_data s))"
    and "over \<in> set (map row_id (cs_data s))"
    and "active \<noteq> over"
  shows "handleDragEnd props (Some active, Some over) s =
     Inr (s\<lparr>cs_data :=
              insert_at (position over (map row_id (cs_data s)))
                (cs_data s ! position active (map row_id (cs_data s)))
                (remove_at (position active (map row_id (cs_data s))) (cs_data s)),
            cs_pending := Suc (cs_pending s),
            cs_calls := cs_calls s @
              [UpdateChannel (channel_id props)
                 (insert_at (position over (map row_id (cs_data s))) active
                    (remove1 active (map row_id (cs_data s))))]\<rparr>)"
proof -
  let ?ids = "map row_id (cs_data s)"
  let ?i = "position active ?ids" and ?j = "position over ?ids"
  have i: "?i < length (cs_data s)" using position_less [OF assms(2)] by simp
  have j: "?j < length (cs_data s)" using position_less [OF assms(3)] by simp
  have am: "arrayMove (cs_data s) (indexOf ?ids active) (indexOf ?ids over) =
      map Some (insert_at ?j (cs_data s ! ?i) (remove_at ?i (cs_data s)))"
    by (simp only: indexOf_position [OF assms(2)] indexOf_position [OF assms(3)]
        arrayMove_in_range [OF i j])
  have rid: "row_id (cs_data s ! ?i) = active"
    using nth_position [OF assms(2)] i by simp
  have ids: "map row_id (insert_at ?j (cs_data s ! ?i) (remove_at ?i (cs_data s))) =
      insert_at ?j active (remove1 active ?ids)"
    by (simp only: map_insert_remove rid remove_at_position [OF assms(2)])
  show ?thesis
    using assms(1,4)
    by (simp add: handleDragEnd_def Let_def am defined_rows_Some ids
        del: map_map)
qed

lemma handleDragEnd_unprivileged:
  "user_level props \<noteq> ADMIN props \<Longrightarrow> handleDragEnd props ev s = Inr s"
  by (simp add: handleDragEnd_def)

lemma drag_step_unprivileged:
  assumes "user_level props \<noteq> ADMIN props" and "cs_pending s = 0"
  shows "\<exists>s'. drag_step props e s = Inr s' \<and> cs_calls s' = cs_calls s \<and> cs_pending s' = 0"
  using assms
  by (cases e)
     (auto simp: grab_def drop_on_def cancel_def persist_settled_def store_changed_def
        handleDragEnd_unprivileged split: option.splits)

lemma drag_run_unprivileged:
  assumes "user_level props \<noteq> ADMIN props"
  shows "cs_pending s = 0 \<Longrightarrow>
    \<exists>s'. drag_run props evs s = Inr s' \<and> cs_calls s' = cs_calls s \<and> cs_pending s' = 0"
proof (induction evs arbitrary: s)
  case Nil
  then show ?case by simp
next
  case (Cons e evs)
  from drag_step_unprivileged [OF assms Cons.prems, of e]
  obtain s1 where s1: "drag_step props e s = Inr s1" "cs_calls s1 = cs_calls s" "cs_pending s1 = 0"
    by blast
  from Cons.IH [OF s1(3)] obtain s' where
    "drag_run props evs s1 = Inr s'" "cs_calls s' = cs_calls s1" "cs_pending s' = 0"
    by blast
  with s1 show ?case by simp
qed

lemma drop_on_admin:
  assumes "user_level props = ADMIN props"
    and "cs_active s = Some active"
    and "active \<in> set (map row_id (cs_data s))"
    and "over \<in> set (map row_id (cs_data s))"
    and "active \<noteq> over"
  shows "drop_on props (Some over) s =
     Inr (s\<lparr>cs_data :=
              insert_at (position over (map row_id (cs_data s)))
                (cs_data s ! position active (map row_id (cs_data s)))
                (remove_at (position active (map row_id (cs_data s))) (cs_data s)),
            cs_pending := Suc (cs_pending s),
            cs_calls := cs_calls s @
              [UpdateChannel (channel_id props)
                 (insert_at (position over (map row_id (cs_data s))) active
                    (remove1 active (map row_id (cs_data s))))],
            cs_active := None\<rparr>)"
  by (simp add: drop_on_def assms(2) handleDragEnd_admin [OF assms(1,3,4,5)])

text \<open>
  Claim C4, as amended. For an administrator dragging a displayed row, a drop on another
  displayed row yields the order obtained by removing the dragged row from the current
  list and inserting it at the position of the row it was dropped on. That order becomes
  the local view at once, the persist call carries the full list of ids in the new
  order, and the coordinator is committing.
\<close>

theorem drop_reorders_and_persists:
  assumes "user_level props = ADMIN props"
    and "cs_active s = Some active"
    and "active \<in> set (map row_id (cs_data s))"
    and "over \<in> set (map row_id (cs_data s))"
    and "active \<noteq> over"
  shows "\<exists>s'. drop_on props (Some over) s = Inr s'
     \<and> cs_data s' =
         insert_at (position over (map row_id (cs_data s)))
           (cs_data s ! position active (map row_id (cs_data s)))
           (remove_at (position active (map row_id (cs_data s))) (cs_data s))
     \<and> map row_id (cs_data s') =
         insert_at (position over (map row_id (cs_data s))) active
           (remove1 active (map row_id (cs_data s)))
     \<and> cs_calls s' = cs_calls s @ [UpdateChannel (channel_id props) (map row_id (cs_data s'))]
     \<and> phase_of s' = Committing"
proof -
  let ?ids = "map row_id (cs_data s)"
  let ?i = "position active ?ids" and ?j = "position over ?ids"
  have i: "?i < length (cs_data s)" using position_less [OF assms(3)] by simp
  have rid: "row_id (cs_data s ! ?i) = active"
    using nth_position [OF assms(3)] i by simp
  have ids: "map row_id (insert_at ?j (cs_data s ! ?i) (remove_at ?i (cs_data s))) =
      insert_at ?j active (remove1 active ?ids)"
    by (simp only: map_insert_remove rid remove_at_position [OF assms(3)])
  show ?thesis
    by (simp add: drop_on_admin [OF assms] ids phase_of_def del: map_map)
qed

text \<open>
  Claim C5, as amended. For a user who is not an administrator the drop is rejected: it
  only ends the drag, leaving the displayed order and the issued calls as they were, and
  the coordinator is idle again. Whatever sequence of grabs, drops, cancellations,
  settlements and store updates such a user goes through, starting with no persist call
  in flight, no call is ever issued to the Gateway.
\<close>

theorem unprivileged_drop_rejected:
  assumes "user_level props \<noteq> ADMIN props"
  shows "drop_on props over s = Inr (s\<lparr>cs_active := None\<rparr>)
     \<and> (cs_pending s = 0 \<longrightarrow> phase_of (s\<lparr>cs_active := None\<rparr>) = Idle)
     \<and> (cs_pending s = 0 \<longrightarrow>
          (\<exists>s'. drag_run props evs s = Inr s' \<and> cs_calls s' = cs_calls s \<and> cs_pending s' = 0))"
proof (intro conjI impI)
  show "drop_on props over s = Inr (s\<lparr>cs_active := None\<rparr>)"
    by (cases "cs_active s")
       (simp_all add: drop_on_def handleDragEnd_unprivileged [OF assms])
  show "phase_of (s\<lparr>cs_active := None\<rparr>) = Idle" if "cs_pending s = 0"
    using that by (simp add: phase_of_def)
  show "\<exists>s'. drag_run props evs s = Inr s' \<and> cs_calls s' = cs_calls s \<and> cs_pending s' = 0"
    if "cs_pending s = 0"
    using that by (rule drag_run_unprivileged [OF assms])
qed

text \<open>
  Claim C6. When a drop has issued a persist call and that call fails, the displayed
  order stays the optimistic order applied at the drop, which is the order that was
  sent; nothing is rolled back, no further call is issued, and the coordinator goes from
  committing back to idle.
\<close>

theorem failed_persist_keeps_optimistic_order:
  assumes "drop_on props over s = Inr s1"
    and "cs_calls s1 \<noteq> cs_calls s"
    and "cs_pending s = 0"
  shows "cs_data (persist_settled Rejected s1) = cs_data s1
     \<and> cs_calls s1 = cs_calls s @ [UpdateChannel (channel_id props) (map row_id (cs_data s1))]
     \<and> cs_calls (persist_settled Rejected s1) = cs_calls s1
     \<and> phase_of s1 = Committing
     \<and> phase_of (persist_settled Rejected s1) = Idle"
  using assms
  by (auto simp: drop_on_def handleDragEnd_def Let_def persist_settled_def phase_of_def
      split: option.splits if_splits sum.splits)

theorem drop_reorders_and_persists_witness:
  "drop_on \<lparr>channel_id = 9, user_level = 10, ADMIN = 10\<rparr> (Some 1)
     \<lparr>cs_data = [\<lparr>row_id = 1, row_name = ''A''\<rparr>, \<lparr>row_id = 2, row_name = ''B''\<rparr>,
                 \<lparr>row_id = 3, row_name = ''C''\<rparr>, \<lparr>row_id = 4, row_name = ''D''\<rparr>],
      cs_active = Some 3, cs_pending = 0, cs_calls = []\<rparr>
   = Inr \<lparr>cs_data = [\<lparr>row_id = 3, row_name = ''C''\<rparr>, \<lparr>row_id = 1, row_name = ''A''\<rparr>,
                     \<lparr>row_id = 2, row_name = ''B''\<rparr>, \<lparr>row_id = 4, row_name = ''D''\<rparr>],
          cs_active = None, cs_pending = 1, cs_calls = [UpdateChannel 9 [3, 1, 2, 4]]\<rparr>"
proof -
  let ?p = "\<lparr>channel_id = 9, user_level = 10, ADMIN = 10\<rparr>"
  let ?s = "\<lparr>cs_data = [\<lparr>row_id = 1, row_name = ''A''\<rparr>, \<lparr>row_id = 2, row_name = ''B''\<rparr>,
                 \<lparr>row_id = 3, row_name = ''C''\<rparr>, \<lparr>row_id = 4, row_name = ''D''\<rparr>],
      cs_active = Some 3, cs_pending = 0, cs_calls = []\<rparr>"
  have h1: "user_level ?p = ADMIN ?p" by simp
  have h2: "cs_active ?s = Some 3" by simp
  have h3: "3 \<in> set (map row_id (cs_data ?s))" by simp
  have h4: "1 \<in> set (map row_id (cs_data ?s))" by simp
  have h5: "(3::nat) \<noteq> 1" by simp
  from drop_reorders_and_persists [OF h1 h2 h3 h4 h5]
  obtain s' where d: "drop_on ?p (Some 1) ?s = Inr s'"
    and o: "cs_data s' =
         insert_at (position 1 (map row_id (cs_data ?s)))
           (cs_data ?s ! position 3 (map row_id (cs_data ?s)))
           (remove_at (position 3 (map row_id (cs_data ?s))) (cs_data ?s))"
    and c: "cs_calls s' = cs_calls ?s @ [UpdateChannel (channel_id ?p) (map row_id (cs_data s'))]"
    by blast
  have o': "cs_data s' = [\<lparr>row_id = 3, row_name = ''C''\<rparr>, \<lparr>row_id = 1, row_name = ''A''\<rparr>,
                     \<lparr>row_id = 2, row_name = ''B''\<rparr>, \<lparr>row_id = 4, row_name = ''D''\<rparr>]"
    by (simp add: o insert_at_def remove_at_def)
  have c': "cs_calls s' = [UpdateChannel 9 [3, 1, 2, 4]]"
    by (simp add: c o')
  have r: "drop_on ?p (Some 1) ?s = Inr s' \<Longrightarrow> cs_active s' = None \<and> cs_pending s' = 1"
    by (auto simp: drop_on_def handleDragEnd_def Let_def split: sum.splits)
  from r [OF d] o' c' have "s' = \<lparr>cs_data = [\<lparr>row_id = 3, row_name = ''C''\<rparr>,
        \<lparr>row_id = 1, row_name = ''A''\<rparr>, \<lparr>row_id = 2, row_name = ''B''\<rparr>,
        \<lparr>row_id = 4, row_name = ''D''\<rparr>],
          cs_active = None, cs_pending = 1, cs_calls = [UpdateChannel 9 [3, 1, 2, 4]]\<rparr>"
    by (cases s') simp
  with d show ?thesis by simp
qed

text \<open>
  Claim C5 as stated fails: for a user who is not an administrator, grabbing a displayed
  row starts a drag, which takes the coordinator from idle to dragging.
\<close>

theorem unprivileged_grab_counterexample:
  "user_level \<lparr>channel_id = 9, user_level = 1, ADMIN = 10\<rparr>
     \<noteq> ADMIN \<lparr>channel_id = 9, user_level = 1, ADMIN = 10\<rparr>
   \<and> phase_of \<lparr>cs_data = [\<lparr>row_id = 1, row_name = ''A''\<rparr>, \<lparr>row_id = 3, row_name = ''C''\<rparr>],
                cs_active = None, cs_pending = 0, cs_calls = []\<rparr> = Idle
   \<and> drag_step \<lparr>channel_id = 9, user_level = 1, ADMIN = 10\<rparr> (Grab 3)
        \<lparr>cs_data = [\<lparr>row_id = 1, row_name = ''A''\<rparr>, \<lparr>row_id = 3, row_name = ''C''\<rparr>],
         cs_active = None, cs_pending = 0, cs_calls = []\<rparr>
      = Inr \<lparr>cs_data = [\<lparr>row_id = 1, row_name = ''A''\<rparr>, \<lparr>row_id = 3, row_name = ''C''\<rparr>],
             cs_active = Some 3, cs_pending = 0, cs_calls = []\<rparr>
   \<and> phase_of \<lparr>cs_data = [\<lparr>row_id = 1, row_name = ''A''\<rparr>, \<lparr>row_id = 3, row_name = ''C''\<rparr>],
                cs_active = Some 3, cs_pending = 0, cs_calls = []\<rparr> = Dragging"
  by (simp add: phase_of_def grab_def)

theorem unprivileged_drop_rejected_witness:
  "drag_run \<lparr>channel_id = 9, user_level = 1, ADMIN = 10\<rparr>
     [Grab 3, Drop (Some 1), PersistSettled (Resolved ()), Grab 1, Cancel]
     \<lparr>cs_data = [\<lparr>row_id = 1, row_name = ''A''\<rparr>, \<lparr>row_id = 3, row_name = ''C''\<rparr>],
      cs_active = None, cs_pending = 0, cs_calls = []\<rparr>
   = Inr \<lparr>cs_data = [\<lparr>row_id = 1, row_name = ''A''\<rparr>, \<lparr>row_id = 3, row_name = ''C''\<rparr>],
          cs_active = None, cs_pending = 0, cs_calls = []\<rparr>
   \<and> drop_on \<lparr>channel_id = 9, user_level = 1, ADMIN = 10\<rparr> (Some 1)
     \<lparr>cs_data = [\<lparr>row_id = 1, row_name = ''A''\<rparr>, \<lparr>row_id = 3, row_name = ''C''\<rparr>],
      cs_active = Some 3, cs_pending = 0, cs_calls = []\<rparr>
   = Inr \<lparr>cs_data = [\<lparr>row_id = 1, row_name = ''A''\<rparr>, \<lparr>row_id = 3, row_name = ''C''\<rparr>],
          cs_active = None, cs_pending = 0, cs_calls = []\<rparr>"
proof -
  let ?p = "\<lparr>channel_id = 9, user_level = 1, ADMIN = 10\<rparr>"
  let ?s = "\<lparr>cs_data = [\<lparr>row_id = 1, row_name = ''A''\<rparr>, \<lparr>row_id = 3, row_name = ''C''\<rparr>],
      cs_active = None, cs_pending = 0, cs_calls = []\<rparr>"
  have h: "user_level ?p \<noteq> ADMIN ?p" by simp
  have a: "drop_on ?p (Some 1) (?s\<lparr>cs_active := Some 3\<rparr>)
      = Inr ((?s\<lparr>cs_active := Some 3\<rparr>)\<lparr>cs_active := None\<rparr>)"
    using unprivileged_drop_rejected [OF h, of "Some 1" "?s\<lparr>cs_active := Some 3\<rparr>" "[]"]
    by (elim conjE) assumption
  have b: "drag_run ?p [Grab 3, Drop (Some 1), PersistSettled (Resolved ()), Grab 1, Cancel] ?s
      = Inr ?s"
    by (simp add: grab_def drop_on_def handleDragEnd_unprivileged cancel_def persist_settled_def)
  from a b show ?thesis by simp
qed

theorem failed_persist_keeps_optimistic_order_witness:
  "cs_data (persist_settled Rejected
      \<lparr>cs_data = [\<lparr>row_id = 3, row_name = ''C''\<rparr>, \<lparr>row_id = 1, row_name = ''A''\<rparr>,
                  \<lparr>row_id = 2, row_name = ''B''\<rparr>, \<lparr>row_id = 4, row_name = ''D''\<rparr>],
       cs_active = None, cs_pending = 1, cs_calls = [UpdateChannel 9 [3, 1, 2, 4]]\<rparr>)
     = [\<lparr>row_id = 3, row_name = ''C''\<rparr>, \<lparr>row_id = 1, row_name = ''A''\<rparr>,
        \<lparr>row_id = 2, row_name = ''B''\<rparr>, \<lparr>row_id = 4, row_name = ''D''\<rparr>]
   \<and> phase_of (persist_settled Rejected
      \<lparr>cs_data = [\<lparr>row_id = 3, row_name = ''C''\<rparr>, \<lparr>row_id = 1, row_name = ''A''\<rparr>,
                  \<lparr>row_id = 2, row_name = ''B''\<rparr>, \<lparr>row_id = 4, row_name = ''D''\<rparr>],
       cs_active = None, cs_pending = 1, cs_calls = [UpdateChannel 9 [3, 1, 2, 4]]\<rparr>) = Idle"
proof -
  let ?p = "\<lparr>channel_id = 9, user_level = 10, ADMIN = 10\<rparr>"
  let ?s = "\<lparr>cs_data = [\<lparr>row_id = 1, row_name = ''A''\<rparr>, \<lparr>row_id = 2, row_name = ''B''\<rparr>,
                 \<lparr>row_id = 3, row_name = ''C''\<rparr>, \<lparr>row_id = 4, row_name = ''D''\<rparr>],
      cs_active = Some 3, cs_pending = 0, cs_calls = []\<rparr>"
  let ?s1 = "\<lparr>cs_data = [\<lparr>row_id = 3, row_name = ''C''\<rparr>, \<lparr>row_id = 1, row_name = ''A''\<rparr>,
                  \<lparr>row_id = 2, row_name = ''B''\<rparr>, \<lparr>row_id = 4, row_name = ''D''\<rparr>],
       cs_active = None, cs_pending = 1, cs_calls = [UpdateChannel 9 [3, 1, 2, 4]]\<rparr>"
  have h1: "user_level ?p = ADMIN ?p" by simp
  have h2: "cs_active ?s = Some 3" by simp
  have h3: "3 \<in> set (map row_id (cs_data ?s))" by simp
  have h4: "1 \<in> set (map row_id (cs_data ?s))" by simp
  have h5: "(3::nat) \<noteq> 1" by simp
  have d: "drop_on ?p (Some 1) ?s = Inr ?s1"
    unfolding drop_on_admin [OF h1 h2 h3 h4 h5]
    by (simp add: insert_at_def remove_at_def)
  have c: "cs_calls ?s1 \<noteq> cs_calls ?s" by simp
  have p: "cs_pending ?s = 0" by simp
  from failed_persist_keeps_optimistic_order [OF d c p] show ?thesis
    by simp
qed

text \<open>
  Claim C4 as stated fails for a user who is not an administrator: dragging C of
  [A, B, C, D] onto A leaves the order [A, B, C, D] and issues no persist call.
\<close>

theorem unprivileged_drop_counterexample:
  "drop_on \<lparr>channel_id = 9, user_level = 1, ADMIN = 10\<rparr> (Some 1)
     \<lparr>cs_data = [\<lparr>row_id = 1, row_name = ''A''\<rparr>, \<lparr>row_id = 2, row_name = ''B''\<rparr>,
                 \<lparr>row_id = 3, row_name = ''C''\<rparr>, \<lparr>row_id = 4, row_name = ''D''\<rparr>],
      cs_active = Some 3, cs_pending = 0, cs_calls = []\<rparr>
   = Inr \<lparr>cs_data = [\<lparr>row_id = 1, row_name = ''A''\<rparr>, \<lparr>row_id = 2, row_name = ''B''\<rparr>,
                     \<lparr>row_id = 3, row_name = ''C''\<rparr>, \<lparr>row_id = 4, row_name = ''D''\<rparr>],
          cs_active = None, cs_pending = 0, cs_calls = []\<rparr>"
  by (simp add: drop_on_def handleDragEnd_unprivileged)

end
